theory Spec2Isabelle
  imports Main "HOL-Library.AList"
begin

section \<open>JavaScript values\<close>

text \<open>
  The values a field can hold. Arrays and plain objects carry an optional string: the
  property stored under the symbol \<^verbatim>\<open>ARRAY_UNIQUE_TAG\<close> (\<open>None\<close> when the property is
  absent). An object is an association list in insertion order, with distinct keys.
  Values are compared structurally; object identity and aliasing are not modelled.
\<close>

datatype jsval =
    Undefined
  | Null
  | JBool bool
  | JNum int
  | JStr string
  | JArr "string option" "jsval list"
  | JObj "string option" "(string \<times> jsval) list"

datatype js_error = TypeError

text \<open>JavaScript's \<^verbatim>\<open>!!v\<close>.\<close>

fun truthy :: "jsval \<Rightarrow> bool" where
  "truthy Undefined = False"
| "truthy Null = False"
| "truthy (JBool b) = b"
| "truthy (JNum n) = (n \<noteq> 0)"
| "truthy (JStr s) = (s \<noteq> [])"
| "truthy (JArr t xs) = True"
| "truthy (JObj t kvs) = True"

text \<open>
  Modelled from the spec: the type guards and the array coercion of \<^verbatim>\<open>@formily/shared\<close>,
  which the field model imports and which are not among the sources. \<^verbatim>\<open>isValid\<close> holds
  of every value but the two unset ones, \<^verbatim>\<open>undefined\<close> and \<^verbatim>\<open>null\<close>; \<^verbatim>\<open>isArr\<close> is
  \<^verbatim>\<open>Array.isArray\<close>; \<^verbatim>\<open>toArr\<close> coerces to a sequence: an array is kept, another truthy
  value becomes a singleton, a falsy one the empty sequence (sections 4.3 and 7).
  \<^verbatim>\<open>isEqual\<close> and \<^verbatim>\<open>isEmpty\<close> of the same package are parameters of the model (see
  \<open>shared\<close>).
\<close>

fun isValid :: "jsval \<Rightarrow> bool" where
  "isValid Undefined = False"
| "isValid Null = False"
| "isValid v = True"

fun isArr :: "jsval \<Rightarrow> bool" where
  "isArr (JArr t xs) = True"
| "isArr v = False"

fun toArr :: "jsval \<Rightarrow> jsval list" where
  "toArr (JArr t xs) = xs"
| "toArr v = (if truthy v then [v] else [])"

text \<open>\<^verbatim>\<open>const normalizeMessages = (messages: any) => toArr(messages).filter(v => !!v)\<close>\<close>

definition normalizeMessages :: "jsval \<Rightarrow> jsval list" where
  "normalizeMessages messages = filter truthy (toArr messages)"

text \<open>
  Reading a property with a string key: a \<^verbatim>\<open>TypeError\<close> on \<^verbatim>\<open>undefined\<close> and \<^verbatim>\<open>null\<close>,
  the stored value on an object that has the key, \<^verbatim>\<open>undefined\<close> otherwise (the keys
  read by this file are \<^verbatim>\<open>required\<close> and \<^verbatim>\<open>message\<close>, which no primitive or array has).
\<close>

fun get_prop :: "jsval \<Rightarrow> string \<Rightarrow> js_error + jsval" where
  "get_prop Undefined k = Inl TypeError"
| "get_prop Null k = Inl TypeError"
| "get_prop (JObj t kvs) k = Inr (case map_of kvs k of None \<Rightarrow> Undefined | Some v \<Rightarrow> v)"
| "get_prop v k = Inr Undefined"

text \<open>\<^verbatim>\<open>Object.keys(item || {}).length\<close>: the number of own enumerable string keys.\<close>

fun keys_length :: "jsval \<Rightarrow> nat" where
  "keys_length (JObj t kvs) = length kvs"
| "keys_length (JArr t xs) = length xs"
| "keys_length (JStr s) = length s"
| "keys_length v = 0"

text \<open>Decimal digits of an index, as a template string prints it.\<close>

fun digit_char :: "nat \<Rightarrow> char" where
  "digit_char n = (''0123456789'' ! (n mod 10))"

fun show_nat :: "nat \<Rightarrow> string" where
  "show_nat n = (if n < 10 then [digit_char n] else show_nat (n div 10) @ [digit_char n])"

declare show_nat.simps [simp del]

text \<open>
  \<^verbatim>\<open>{ ...item, required }\<close>: a copy of the item's own properties (the symbol-keyed tag
  included) with \<^verbatim>\<open>required\<close> overwritten in place, or appended when the item has no
  such key. The source reaches it only for items whose \<^verbatim>\<open>required\<close> is valid, which
  are objects.
\<close>

fun spread_required :: "jsval \<Rightarrow> jsval \<Rightarrow> jsval" where
  "spread_required (JObj t kvs) required = JObj t (AList.update ''required'' required kvs)"
| "spread_required (JArr t xs) required =
     JObj t (AList.update ''required'' required (zip (map show_nat [0..<length xs]) xs))"
| "spread_required (JStr s) required =
     JObj None (AList.update ''required'' required
       (zip (map show_nat [0..<length s]) (map (\<lambda>c. JStr [c]) s)))"
| "spread_required v required = JObj None [(''required'', required)]"

section \<open>Array tags\<close>

text \<open>
  \<^verbatim>\<open>tagArrayList(current, name, force)\<close> on an array (both call sites pass
  \<^verbatim>\<open>toArr(...)\<close>): every item with \<^verbatim>\<open>typeof item === 'object'\<close> gets the tag
  \<^verbatim>\<open>`${name}.${index}`\<close>, or keeps a truthy tag it already has unless \<^verbatim>\<open>force\<close>.
  \<^verbatim>\<open>typeof null\<close> is \<^verbatim>\<open>'object'\<close> too, and assigning a property of \<^verbatim>\<open>null\<close> raises.
\<close>

definition new_tag :: "string option \<Rightarrow> string \<Rightarrow> nat \<Rightarrow> bool \<Rightarrow> string option" where
  "new_tag old name index force =
     (if force then Some (name @ ''.'' @ show_nat index)
      else (case old of
              None \<Rightarrow> Some (name @ ''.'' @ show_nat index)
            | Some t \<Rightarrow> if t \<noteq> [] then Some t else Some (name @ ''.'' @ show_nat index)))"

fun tag_item :: "string \<Rightarrow> bool \<Rightarrow> nat \<Rightarrow> jsval \<Rightarrow> js_error + jsval" where
  "tag_item name force index Null = Inl TypeError"
| "tag_item name force index (JArr t xs) = Inr (JArr (new_tag t name index force) xs)"
| "tag_item name force index (JObj t kvs) = Inr (JObj (new_tag t name index force) kvs)"
| "tag_item name force index v = Inr v"

fun tag_from :: "string \<Rightarrow> bool \<Rightarrow> nat \<Rightarrow> jsval list \<Rightarrow> js_error + jsval list" where
  "tag_from name force index [] = Inr []"
| "tag_from name force index (item # items) =
     (case tag_item name force index item of
        Inl e \<Rightarrow> Inl e
      | Inr item' \<Rightarrow>
          (case tag_from name force (Suc index) items of
             Inl e \<Rightarrow> Inl e
           | Inr items' \<Rightarrow> Inr (item' # items')))"

definition tagArrayList :: "jsval list \<Rightarrow> string \<Rightarrow> bool \<Rightarrow> js_error + jsval list" where
  "tagArrayList current name force = tag_from name force 0 current"

text \<open>\<^verbatim>\<open>parseArrayTags\<close>: the truthy tags of an array's items, in order.\<close>

fun item_tag :: "jsval \<Rightarrow> string option" where
  "item_tag (JArr t xs) = t"
| "item_tag (JObj t kvs) = t"
| "item_tag v = None"

definition parseArrayTags :: "jsval \<Rightarrow> string list" where
  "parseArrayTags v =
     (if \<not> isArr v then []
      else concat (map (\<lambda>item. case item_tag item of
                                  None \<Rightarrow> []
                                | Some t \<Rightarrow> if t \<noteq> [] then [t] else []) (toArr v)))"

section \<open>The field state\<close>

text \<open>
  \<^verbatim>\<open>formEditable\<close> is \<^verbatim>\<open>undefined\<close>, a boolean, or a function of the field name.
\<close>

datatype form_editable = FE_undefined | FE_bool bool | FE_fn "string \<Rightarrow> bool"

text \<open>
  The state object of \<^verbatim>\<open>FieldStateFactory\<close>, typed as \<^verbatim>\<open>IFieldState\<close> declares it.
  \<open>None\<close> is \<^verbatim>\<open>undefined\<close> for the optional booleans. \<open>value'\<close> and \<open>values'\<close> are the
  properties \<^verbatim>\<open>value\<close> and \<^verbatim>\<open>values\<close>.
\<close>

record IFieldState =
  name :: string
  path :: string
  dataType :: string
  initialized :: bool
  pristine :: bool
  valid :: bool
  modified :: bool
  touched :: bool
  active :: bool
  visited :: bool
  invalid :: bool
  visible :: bool
  display :: bool
  loading :: bool
  validating :: "bool option"
  errors :: "jsval list"
  values' :: "jsval list"
  ruleErrors :: "jsval list"
  ruleWarnings :: "jsval list"
  effectErrors :: "jsval list"
  warnings :: "jsval list"
  effectWarnings :: "jsval list"
  editable :: "bool option"
  selfEditable :: "bool option"
  formEditable :: form_editable
  value' :: jsval
  visibleCacheValue :: jsval
  initialValue :: jsval
  rules :: "jsval list"
  required :: jsval
  mounted :: bool
  unmounted :: bool
  unmountRemoveValue :: bool
  props :: jsval

text \<open>The property names, as keys of the dirty map.\<close>

datatype key =
    K_name | K_path | K_dataType | K_initialized | K_pristine | K_valid | K_modified
  | K_touched | K_active | K_visited | K_invalid | K_visible | K_display | K_loading
  | K_validating | K_errors | K_values | K_ruleErrors | K_ruleWarnings | K_effectErrors
  | K_warnings | K_effectWarnings | K_editable | K_selfEditable | K_formEditable | K_value
  | K_visibleCacheValue | K_initialValue | K_rules | K_required | K_mounted | K_unmounted
  | K_unmountRemoveValue | K_props

type_synonym FieldStateDirtyMap = "key \<Rightarrow> bool"

text \<open>
  The collaborators passed at construction (\<^verbatim>\<open>IFieldStateProps\<close>). A reading callback
  is \<open>None\<close> when it is not supplied; for a notifying callback the flag says whether it
  is supplied, and each call made is recorded.
\<close>

record IFieldStateProps =
  getValue :: "(string \<Rightarrow> jsval) option"
  getInitialValue :: "(string \<Rightarrow> jsval) option"
  setValue :: bool
  setInitialValue :: bool
  needRemoveValue :: "(string \<Rightarrow> bool) option"
  unControlledValueChanged :: bool

datatype call =
    Call_setValue string jsval
  | Call_setInitialValue string jsval
  | Call_needRemoveValue string
  | Call_unControlledValueChanged

text \<open>
  \<^verbatim>\<open>isEqual\<close> and \<^verbatim>\<open>isEmpty\<close> of \<^verbatim>\<open>@formily/shared\<close> are not part of this file; the
  model takes them as parameters.
\<close>

record shared =
  isEqual :: "jsval \<Rightarrow> jsval \<Rightarrow> bool"
  isEmpty :: "jsval \<Rightarrow> bool"

record FieldStateFactory =
  fprops :: IFieldStateProps
  state :: IFieldState
  lastCompareResults :: "bool option"
  lib :: shared

text \<open>The initial \<^verbatim>\<open>state\<close> of the class, then the constructor's three assignments.\<close>

definition state0 :: IFieldState where
  "state0 = \<lparr> name = [], path = [], dataType = ''any'', initialized = False,
     pristine = True, valid = True, modified = False, touched = False, active = False,
     visited = False, invalid = False, visible = True, display = True, loading = False,
     validating = Some False, errors = [], values' = [], ruleErrors = [],
     ruleWarnings = [], effectErrors = [], warnings = [], effectWarnings = [],
     editable = Some True, selfEditable = None, formEditable = FE_undefined,
     value' = Undefined, visibleCacheValue = Undefined, initialValue = Undefined,
     rules = [], required = JBool False, mounted = False, unmounted = False,
     unmountRemoveValue = True, props = JObj None [] \<rparr>"

definition construct ::
  "shared \<Rightarrow> IFieldStateProps \<Rightarrow> string \<Rightarrow> string \<Rightarrow> string \<Rightarrow> FieldStateFactory" where
  "construct sh ps nodePath dataPath dt =
     \<lparr> fprops = ps,
       state = state0 \<lparr> name := dataPath, path := nodePath, dataType := dt \<rparr>,
       lastCompareResults = None,
       lib = sh \<rparr>"

text \<open>Reading and writing slot 0 of an array: a read past the end is \<^verbatim>\<open>undefined\<close>,
  a write to an empty array extends it.\<close>

fun slot0 :: "jsval list \<Rightarrow> jsval" where
  "slot0 [] = Undefined"
| "slot0 (x # xs) = x"

fun set_slot0 :: "jsval list \<Rightarrow> jsval \<Rightarrow> jsval list" where
  "set_slot0 [] v = [v]"
| "set_slot0 (x # xs) v = v # xs"

text \<open>\<^verbatim>\<open>isArrayList() { return /array/gi.test(this.state.dataType) }\<close>:
  the data type contains \<^verbatim>\<open>array\<close>, in any letter case.\<close>

definition lower_char :: "char \<Rightarrow> char" where
  "lower_char c =
     (if c = CHR ''A'' then CHR ''a'' else if c = CHR ''R'' then CHR ''r''
      else if c = CHR ''Y'' then CHR ''y'' else c)"

fun contains_array :: "string \<Rightarrow> bool" where
  "contains_array [] = False"
| "contains_array (c # cs) =
     (if map lower_char (take 5 (c # cs)) = ''array'' then True else contains_array cs)"

definition isArrayList :: "FieldStateFactory \<Rightarrow> bool" where
  "isArrayList this = contains_array (dataType (state this))"

text \<open>\<^verbatim>\<open>getOriginalValue\<close> strips the draft proxy of a value; values carry no proxy here.\<close>

definition getOriginalValue :: "jsval \<Rightarrow> jsval" where
  "getOriginalValue v = v"

section \<open>The producer stages\<close>

definition produceErrorsAndWarnings :: "IFieldState \<Rightarrow> FieldStateDirtyMap \<Rightarrow> IFieldState" where
  "produceErrorsAndWarnings draft dirtys =
     (let d1 = (if dirtys K_errors
                then draft \<lparr> effectErrors := normalizeMessages (JArr None (errors draft)) \<rparr>
                else draft);
          d2 = (if dirtys K_warnings
                then d1 \<lparr> effectWarnings := normalizeMessages (JArr None (warnings d1)) \<rparr>
                else d1);
          d3 = (if dirtys K_effectErrors
                then d2 \<lparr> effectErrors := normalizeMessages (JArr None (effectErrors d2)) \<rparr>
                else d2);
          d4 = (if dirtys K_effectWarnings
                then d3 \<lparr> effectWarnings := normalizeMessages (JArr None (effectWarnings d3)) \<rparr>
                else d3);
          d5 = (if dirtys K_ruleErrors
                then d4 \<lparr> ruleErrors := normalizeMessages (JArr None (ruleErrors d4)) \<rparr>
                else d4);
          d6 = (if dirtys K_ruleWarnings
                then d5 \<lparr> ruleWarnings := normalizeMessages (JArr None (ruleWarnings d5)) \<rparr>
                else d5);
          d7 = d6 \<lparr> errors := ruleErrors d6 @ effectErrors d6 \<rparr>
      in d7 \<lparr> warnings := ruleWarnings d7 @ effectWarnings d7 \<rparr>)"

definition produceEditable :: "IFieldState \<Rightarrow> FieldStateDirtyMap \<Rightarrow> IFieldState" where
  "produceEditable draft dirtys =
     (let d1 = (if dirtys K_editable then draft \<lparr> selfEditable := editable draft \<rparr> else draft)
      in d1 \<lparr> editable :=
           (case selfEditable d1 of
              Some b \<Rightarrow> Some b
            | None \<Rightarrow>
                (case formEditable d1 of
                   FE_undefined \<Rightarrow> Some True
                 | FE_fn f \<Rightarrow> Some (f (name d1))
                 | FE_bool b \<Rightarrow> Some b)) \<rparr>)"

text \<open>
  \<^verbatim>\<open>produceValue\<close>, first block (\<^verbatim>\<open>if (dirtys.values)\<close>) and second block
  (\<^verbatim>\<open>if (dirtys.value)\<close>). \<^verbatim>\<open>this.tagArrayList(v)\<close> is
  \<^verbatim>\<open>tagArrayList(v, this.state.name)\<close>, without \<^verbatim>\<open>force\<close>.
\<close>

definition produceValue_values ::
  "FieldStateFactory \<Rightarrow> IFieldState \<Rightarrow> FieldStateDirtyMap \<Rightarrow> js_error + IFieldState" where
  "produceValue_values this draft dirtys =
     (if dirtys K_values then
        (let d1 = draft \<lparr> values' := toArr (JArr None (values' draft)) \<rparr> in
         case (if isArrayList this then
                 (case tagArrayList (toArr (slot0 (values' d1))) (name (state this)) False of
                    Inl e \<Rightarrow> Inl e
                  | Inr tagged \<Rightarrow>
                      Inr (d1 \<lparr> values' := set_slot0 (values' d1) (JArr None tagged) \<rparr>))
               else Inr d1) of
           Inl e \<Rightarrow> Inl e
         | Inr d2 \<Rightarrow> Inr (d2 \<lparr> value' := slot0 (values' d2), modified := True \<rparr>))
      else Inr draft)"

definition produceValue_value ::
  "FieldStateFactory \<Rightarrow> IFieldState \<Rightarrow> FieldStateDirtyMap \<Rightarrow> js_error + IFieldState" where
  "produceValue_value this draft dirtys =
     (if dirtys K_value then
        (case (if isArrayList this then
                 (case tagArrayList (toArr (value' draft)) (name (state this)) False of
                    Inl e \<Rightarrow> Inl e
                  | Inr tagged \<Rightarrow> Inr (draft \<lparr> value' := JArr None tagged \<rparr>))
               else Inr draft) of
           Inl e \<Rightarrow> Inl e
         | Inr d1 \<Rightarrow>
             Inr (d1 \<lparr> values' := set_slot0 (values' d1) (value' d1), modified := True \<rparr>))
      else Inr draft)"

text \<open>
  The third block (\<^verbatim>\<open>if (dirtys.initialized)\<close>): \<open>fills_initial\<close> is its inner test,
  under which the initial value is adopted and both change flags are set.
\<close>

definition fills_initial :: "FieldStateFactory \<Rightarrow> IFieldState \<Rightarrow> FieldStateDirtyMap \<Rightarrow> bool" where
  "fills_initial this draft dirtys =
     (dirtys K_initialized \<and>
      (let isEmptyValue =
             (if isValid (value' draft) then isEmpty (lib this) (value' draft) else True)
       in isEmptyValue \<and> isValid (initialValue draft)))"

definition produceValue_initialized ::
  "FieldStateFactory \<Rightarrow> IFieldState \<Rightarrow> FieldStateDirtyMap \<Rightarrow> IFieldState" where
  "produceValue_initialized this draft dirtys =
     (if fills_initial this draft dirtys
      then (let d = draft \<lparr> value' := initialValue draft \<rparr>;
                d' = d \<lparr> values' := toArr (JArr None (values' d)) \<rparr>
            in d' \<lparr> values' := set_slot0 (values' d') (value' d') \<rparr>)
      else draft)"

text \<open>The last block: \<^verbatim>\<open>pristine\<close> is recomputed with \<^verbatim>\<open>isEqual\<close>.\<close>

definition set_pristine :: "FieldStateFactory \<Rightarrow> IFieldState \<Rightarrow> IFieldState" where
  "set_pristine this draft =
     (if isEqual (lib this) (initialValue draft) (value' draft)
      then draft \<lparr> pristine := True \<rparr>
      else draft \<lparr> pristine := False \<rparr>)"

definition produceValue ::
  "FieldStateFactory \<Rightarrow> IFieldState \<Rightarrow> FieldStateDirtyMap
     \<Rightarrow> js_error + IFieldState \<times> call list" where
  "produceValue this draft dirtys =
     (case produceValue_values this draft dirtys of
        Inl e \<Rightarrow> Inl e
      | Inr d1 \<Rightarrow>
     (case produceValue_value this d1 dirtys of
        Inl e \<Rightarrow> Inl e
      | Inr d2 \<Rightarrow>
     (let valueOrInitialValueChanged =
            (dirtys K_values \<or> dirtys K_value \<or> dirtys K_initialValue
               \<or> fills_initial this d2 dirtys);
          valueChanged = (dirtys K_values \<or> dirtys K_value \<or> fills_initial this d2 dirtys);
          d3 = produceValue_initialized this d2 dirtys;
          calls1 = (if valueChanged \<and> setValue (fprops this)
                    then [Call_setValue (name (state this)) (getOriginalValue (value' d3))]
                    else []);
          calls2 = (if dirtys K_initialValue \<and> setInitialValue (fprops this)
                    then [Call_setInitialValue (name (state this))
                            (getOriginalValue (initialValue d3))]
                    else [])
      in Inr (if valueOrInitialValueChanged then set_pristine this d3 else d3,
              calls1 @ calls2))))"

text \<open>
  \<^verbatim>\<open>produceSideEffects\<close>. The hide branch and the show branch are written twice in the
  source, with the same body under the two policies; \<open>hide_value\<close> and \<open>show_value\<close>
  are those bodies.
\<close>

definition hide_value ::
  "FieldStateFactory \<Rightarrow> IFieldState \<Rightarrow> FieldStateDirtyMap \<Rightarrow> IFieldState \<times> call list" where
  "hide_value this draft dirtys =
     (let d1 = (if \<not> dirtys K_visibleCacheValue
                then draft \<lparr> visibleCacheValue :=
                       (if isValid (value' draft) then value' draft
                        else if isValid (visibleCacheValue draft) then visibleCacheValue draft
                        else initialValue draft) \<rparr>
                else draft);
          d2 = d1 \<lparr> value' := Undefined \<rparr>;
          d3 = d2 \<lparr> values' := toArr (JArr None (values' d2)) \<rparr>;
          d4 = d3 \<lparr> values' := set_slot0 (values' d3) Undefined \<rparr>
      in (d4, if setValue (fprops this)
              then [Call_setValue (name (state this)) Undefined] else []))"

definition show_value :: "FieldStateFactory \<Rightarrow> IFieldState \<Rightarrow> IFieldState \<times> call list" where
  "show_value this draft =
     (if \<not> isValid (value' draft)
      then (let d1 = draft \<lparr> value' := visibleCacheValue draft \<rparr>
            in (d1, if setValue (fprops this)
                    then [Call_setValue (name (state this)) (getOriginalValue (value' d1))]
                    else []))
      else (draft, []))"

text \<open>
  The block \<^verbatim>\<open>if (dirtys.visible || dirtys.mounted || dirtys.unmounted)\<close>, entered.
  \<open>remove_on_hide\<close> is its test
  \<^verbatim>\<open>draft.unmountRemoveValue && this.props?.needRemoveValue?.(this.state.path)\<close>;
  \<^verbatim>\<open>needRemoveValue\<close> is asked only when \<^verbatim>\<open>unmountRemoveValue\<close> is set and the
  callback is supplied.
\<close>

definition remove_on_hide :: "FieldStateFactory \<Rightarrow> IFieldState \<Rightarrow> bool" where
  "remove_on_hide this draft =
     (unmountRemoveValue draft \<and>
      (case needRemoveValue (fprops this) of
         None \<Rightarrow> False
       | Some f \<Rightarrow> f (path (state this))))"

definition hide_show ::
  "FieldStateFactory \<Rightarrow> IFieldState \<Rightarrow> FieldStateDirtyMap \<Rightarrow> IFieldState \<times> call list" where
  "hide_show this draft dirtys =
     (let asked = (if unmountRemoveValue draft \<and> needRemoveValue (fprops this) \<noteq> None
                   then [Call_needRemoveValue (path (state this))] else []);
          remove = remove_on_hide this draft;
          res =
            (if remove then
               (if display draft then
                  (if visible draft = False \<or> unmounted draft = True
                   then hide_value this draft dirtys
                   else if visible draft = True \<or> mounted draft = True \<or> unmounted draft = False
                   then show_value this draft
                   else (draft, []))
                else (draft, []))
             else
               (if display draft then
                  (if visible draft = False then hide_value this draft dirtys
                   else if visible draft = True then show_value this draft
                   else (draft, []))
                else (draft, [])))
      in (fst res, asked @ snd res))"

text \<open>
  The statements of \<^verbatim>\<open>produceSideEffects\<close> before the hide/show block, one definition
  for each: the \<^verbatim>\<open>validating\<close>/\<^verbatim>\<open>loading\<close> block, the forced clearing of the message
  channels, the reset of \<^verbatim>\<open>props\<close>, and the four statements that synchronise
  \<^verbatim>\<open>mounted\<close> and \<^verbatim>\<open>unmounted\<close>. \<open>sync_flags\<close> runs them in the source's order.
\<close>

definition validating_loading :: "IFieldState \<Rightarrow> FieldStateDirtyMap \<Rightarrow> IFieldState" where
  "validating_loading draft dirtys =
     (if dirtys K_validating
      then (if validating draft = Some True then draft \<lparr> loading := True \<rparr>
            else if validating draft = Some False then draft \<lparr> loading := False \<rparr>
            else draft)
      else draft)"

definition clear_messages :: "IFieldState \<Rightarrow> FieldStateDirtyMap \<Rightarrow> IFieldState" where
  "clear_messages draft dirtys =
     (if dirtys K_editable \<or> dirtys K_selfEditable \<or> visible draft = False
         \<or> unmounted draft = True
      then draft \<lparr> errors := [], effectErrors := [], warnings := [], effectWarnings := [] \<rparr>
      else draft)"

definition reset_props :: "IFieldState \<Rightarrow> IFieldState" where
  "reset_props draft =
     (if \<not> isValid (props draft) then draft \<lparr> props := JObj None [] \<rparr> else draft)"

definition sync_mounted :: "IFieldState \<Rightarrow> FieldStateDirtyMap \<Rightarrow> IFieldState" where
  "sync_mounted draft dirtys =
     (let d4 = (if mounted draft = True \<and> dirtys K_mounted
                then draft \<lparr> unmounted := False \<rparr> else draft);
          d5 = (if mounted d4 = False \<and> dirtys K_mounted
                then d4 \<lparr> unmounted := True \<rparr> else d4);
          d6 = (if unmounted d5 = True \<and> dirtys K_unmounted
                then d5 \<lparr> mounted := False \<rparr> else d5)
      in (if unmounted d6 = False \<and> dirtys K_unmounted
          then d6 \<lparr> mounted := True \<rparr> else d6))"

definition sync_flags :: "IFieldState \<Rightarrow> FieldStateDirtyMap \<Rightarrow> IFieldState" where
  "sync_flags draft dirtys =
     sync_mounted (reset_props (clear_messages (validating_loading draft dirtys) dirtys)) dirtys"

text \<open>The last statement of \<^verbatim>\<open>produceSideEffects\<close>: \<^verbatim>\<open>if (draft.errors.length)\<close>.\<close>

definition set_validity :: "IFieldState \<Rightarrow> IFieldState" where
  "set_validity draft =
     (if errors draft \<noteq> []
      then draft \<lparr> invalid := True, valid := False \<rparr>
      else draft \<lparr> invalid := False, valid := True \<rparr>)"

definition produceSideEffects ::
  "FieldStateFactory \<Rightarrow> IFieldState \<Rightarrow> FieldStateDirtyMap \<Rightarrow> IFieldState \<times> call list" where
  "produceSideEffects this draft dirtys =
     (let res = (if dirtys K_visible \<or> dirtys K_mounted \<or> dirtys K_unmounted
                 then hide_show this (sync_flags draft dirtys) dirtys
                 else (sync_flags draft dirtys, []))
      in (set_validity (fst res), snd res))"

text \<open>
  \<^verbatim>\<open>buf.concat(x)\<close> appends the elements of \<^verbatim>\<open>x\<close> when it is an array, and
  \<^verbatim>\<open>x\<close> itself otherwise.
\<close>

fun js_concat :: "jsval list \<Rightarrow> jsval \<Rightarrow> jsval list" where
  "js_concat buf (JArr t xs) = buf @ xs"
| "js_concat buf v = buf @ [v]"

text \<open>\<^verbatim>\<open>rule && isValid(rule['required'])\<close>, the test of \<^verbatim>\<open>rules.some\<close>.\<close>

definition declares_required :: "jsval \<Rightarrow> bool" where
  "declares_required rule =
     (truthy rule \<and> (case get_prop rule ''required'' of Inl e \<Rightarrow> False | Inr r \<Rightarrow> isValid r))"

text \<open>
  The callback of \<^verbatim>\<open>rules.reduce\<close>. \<open>rewrite_tail\<close> is what follows the first
  \<^verbatim>\<open>if (isValid(item.required))\<close> block: the second test of \<^verbatim>\<open>item.required\<close> and the
  final \<^verbatim>\<open>return buf.concat(item)\<close>. The first block falls through to it when neither
  key count is large enough.
\<close>

definition rewrite_tail :: "jsval \<Rightarrow> jsval list \<Rightarrow> jsval \<Rightarrow> js_error + jsval list" where
  "rewrite_tail required' buf item =
     (case get_prop item ''required'' of
        Inl e \<Rightarrow> Inl e
      | Inr r \<Rightarrow>
          if isValid r then Inr (js_concat buf (spread_required item required'))
          else Inr (js_concat buf item))"

definition rewrite_rule :: "jsval \<Rightarrow> jsval list \<Rightarrow> jsval \<Rightarrow> js_error + jsval list" where
  "rewrite_rule required' buf item =
     (let keys = keys_length (if truthy item then item else JObj None []) in
      case get_prop item ''required'' of
        Inl e \<Rightarrow> Inl e
      | Inr r \<Rightarrow>
          if isValid r then
            (case get_prop item ''message'' of
               Inl e \<Rightarrow> Inl e
             | Inr m \<Rightarrow>
                 if isValid m then
                   (if keys > 2 then Inr (js_concat buf (spread_required item required'))
                    else rewrite_tail required' buf item)
                 else
                   (if keys > 1 then Inr (js_concat buf (spread_required item required'))
                    else rewrite_tail required' buf item))
          else rewrite_tail required' buf item)"

fun reduce_rules :: "jsval \<Rightarrow> jsval list \<Rightarrow> jsval list \<Rightarrow> js_error + jsval list" where
  "reduce_rules required' buf [] = Inr buf"
| "reduce_rules required' buf (item # items) =
     (case rewrite_rule required' buf item of
        Inl e \<Rightarrow> Inl e
      | Inr buf' \<Rightarrow> reduce_rules required' buf' items)"

definition getRulesFromRulesAndRequired :: "jsval list \<Rightarrow> jsval \<Rightarrow> js_error + jsval list" where
  "getRulesFromRulesAndRequired rs required' =
     (if isValid required' then
        (if rs \<noteq> [] then
           (if \<not> list_ex declares_required rs
            then Inr (rs @ [JObj None [(''required'', required')]])
            else reduce_rules required' [] rs)
         else
           (if required' = JBool True
            then Inr (rs @ [JObj None [(''required'', required')]])
            else Inr rs))
      else Inr rs)"

fun getRequiredFromRulesAndRequired :: "jsval list \<Rightarrow> jsval \<Rightarrow> js_error + jsval" where
  "getRequiredFromRulesAndRequired [] required' = Inr required'"
| "getRequiredFromRulesAndRequired (rule # rest) required' =
     (case get_prop rule ''required'' of
        Inl e \<Rightarrow> Inl e
      | Inr r \<Rightarrow>
          if isValid r then Inr r else getRequiredFromRulesAndRequired rest required')"

definition produceRules :: "IFieldState \<Rightarrow> FieldStateDirtyMap \<Rightarrow> js_error + IFieldState" where
  "produceRules draft dirtys =
     (let d1 = (if isValid (JArr None (rules draft))
                then draft \<lparr> rules := toArr (JArr None (rules draft)) \<rparr>
                else draft)
      in if (dirtys K_required \<and> dirtys K_rules) \<or> dirtys K_required then
           (case getRulesFromRulesAndRequired (rules d1) (required d1) of
              Inl e \<Rightarrow> Inl e
            | Inr rs \<Rightarrow> Inr (d1 \<lparr> required := required d1, rules := rs \<rparr>))
         else if dirtys K_rules then
           (case getRequiredFromRulesAndRequired (rules d1) (required d1) of
              Inl e \<Rightarrow> Inl e
            | Inr r \<Rightarrow> Inr (d1 \<lparr> required := r \<rparr>))
         else Inr d1)"

text \<open>
  \<^verbatim>\<open>produce\<close>: the five stages in the source's order. An exception of a stage ends
  the pipeline.
\<close>

definition produce ::
  "FieldStateFactory \<Rightarrow> IFieldState \<Rightarrow> FieldStateDirtyMap
     \<Rightarrow> js_error + IFieldState \<times> call list" where
  "produce this draft dirtys =
     (let d1 = produceErrorsAndWarnings draft dirtys;
          d2 = produceEditable d1 dirtys
      in case produceValue this d2 dirtys of
           Inl e \<Rightarrow> Inl e
         | Inr r3 \<Rightarrow>
             (let r4 = produceSideEffects this (fst r3) dirtys
              in case produceRules (fst r4) dirtys of
                   Inl e \<Rightarrow> Inl e
                 | Inr d5 \<Rightarrow> Inr (d5, snd r3 @ snd r4)))"

section \<open>Reading the state\<close>






section \<open>Committing a mutation\<close>

text \<open>
  \<^verbatim>\<open>dirtyCheck(path, value, nextValue)\<close> compares a property's old and new value:
  with \<^verbatim>\<open>isEqual\<close> for the keys of \<^verbatim>\<open>DEEP_INSPECT_PROPERTY_KEYS\<close>, with \<^verbatim>\<open>!==\<close> for
  the others. \<open>pval\<close> is the value of a property of any type; \<^verbatim>\<open>!==\<close> is inequality of
  the modelled values.
\<close>

datatype pval = P_js jsval | P_fe form_editable

definition DEEP_INSPECT_PROPERTY_KEYS :: "key list" where
  "DEEP_INSPECT_PROPERTY_KEYS =
     [K_props, K_rules, K_errors, K_warnings, K_effectErrors, K_effectWarnings,
      K_ruleErrors, K_ruleWarnings]"

fun isEqual_pval :: "shared \<Rightarrow> pval \<Rightarrow> pval \<Rightarrow> bool" where
  "isEqual_pval sh (P_js a) (P_js b) = isEqual sh a b"
| "isEqual_pval sh a b = (a = b)"

definition dirtyCheck :: "FieldStateFactory \<Rightarrow> key \<Rightarrow> pval \<Rightarrow> pval \<Rightarrow> bool" where
  "dirtyCheck this propName v nextValue =
     (if propName \<in> set DEEP_INSPECT_PROPERTY_KEYS
      then \<not> isEqual_pval (lib this) v nextValue
      else v \<noteq> nextValue)"

definition opt_bool :: "bool option \<Rightarrow> jsval" where
  "opt_bool b = (case b of None \<Rightarrow> Undefined | Some x \<Rightarrow> JBool x)"

fun prop_val :: "IFieldState \<Rightarrow> key \<Rightarrow> pval" where
  "prop_val s K_name = P_js (JStr (name s))"
| "prop_val s K_path = P_js (JStr (path s))"
| "prop_val s K_dataType = P_js (JStr (dataType s))"
| "prop_val s K_initialized = P_js (JBool (initialized s))"
| "prop_val s K_pristine = P_js (JBool (pristine s))"
| "prop_val s K_valid = P_js (JBool (valid s))"
| "prop_val s K_modified = P_js (JBool (modified s))"
| "prop_val s K_touched = P_js (JBool (touched s))"
| "prop_val s K_active = P_js (JBool (active s))"
| "prop_val s K_visited = P_js (JBool (visited s))"
| "prop_val s K_invalid = P_js (JBool (invalid s))"
| "prop_val s K_visible = P_js (JBool (visible s))"
| "prop_val s K_display = P_js (JBool (display s))"
| "prop_val s K_loading = P_js (JBool (loading s))"
| "prop_val s K_validating = P_js (opt_bool (validating s))"
| "prop_val s K_errors = P_js (JArr None (errors s))"
| "prop_val s K_values = P_js (JArr None (values' s))"
| "prop_val s K_ruleErrors = P_js (JArr None (ruleErrors s))"
| "prop_val s K_ruleWarnings = P_js (JArr None (ruleWarnings s))"
| "prop_val s K_effectErrors = P_js (JArr None (effectErrors s))"
| "prop_val s K_warnings = P_js (JArr None (warnings s))"
| "prop_val s K_effectWarnings = P_js (JArr None (effectWarnings s))"
| "prop_val s K_editable = P_js (opt_bool (editable s))"
| "prop_val s K_selfEditable = P_js (opt_bool (selfEditable s))"
| "prop_val s K_formEditable = P_fe (formEditable s)"
| "prop_val s K_value = P_js (value' s)"
| "prop_val s K_visibleCacheValue = P_js (visibleCacheValue s)"
| "prop_val s K_initialValue = P_js (initialValue s)"
| "prop_val s K_rules = P_js (JArr None (rules s))"
| "prop_val s K_required = P_js (required s)"
| "prop_val s K_mounted = P_js (JBool (mounted s))"
| "prop_val s K_unmounted = P_js (JBool (unmounted s))"
| "prop_val s K_unmountRemoveValue = P_js (JBool (unmountRemoveValue s))"
| "prop_val s K_props = P_js (props s)"

definition all_keys :: "key list" where
  "all_keys =
     [K_name, K_path, K_dataType, K_initialized, K_pristine, K_valid, K_modified,
      K_touched, K_active, K_visited, K_invalid, K_visible, K_display, K_loading,
      K_validating, K_errors, K_values, K_ruleErrors, K_ruleWarnings, K_effectErrors,
      K_warnings, K_effectWarnings, K_editable, K_selfEditable, K_formEditable, K_value,
      K_visibleCacheValue, K_initialValue, K_rules, K_required, K_mounted, K_unmounted,
      K_unmountRemoveValue, K_props]"

text \<open>
  Modelled from the spec: the commit operation of the model wrapper
  (\<^verbatim>\<open>createModel\<close> in \<^verbatim>\<open>../shared/model\<close>), which is not among the sources. After the
  spec's sections 2, 4.1 and 5: a mutation is applied to a working copy of the current
  snapshot; the dirty tracker marks a property dirty when the mutation changed it and
  \<^verbatim>\<open>dirtyCheck\<close> says so, and never a property the mutation left alone; then either the
  five stages run once on the working copy and the result is installed, or, with no
  dirty property, the prior snapshot is kept. A mutation is the recipe that edits the
  working copy.
\<close>

definition dirtys_of ::
  "FieldStateFactory \<Rightarrow> IFieldState \<Rightarrow> IFieldState \<Rightarrow> FieldStateDirtyMap" where
  "dirtys_of this base draft k =
     (prop_val base k \<noteq> prop_val draft k \<and>
      dirtyCheck this k (prop_val base k) (prop_val draft k))"

definition commit ::
  "FieldStateFactory \<Rightarrow> (IFieldState \<Rightarrow> IFieldState)
     \<Rightarrow> js_error + FieldStateFactory \<times> call list" where
  "commit this recipe =
     (let base = state this;
          draft = recipe base;
          dirtys = dirtys_of this base draft
      in if filter dirtys all_keys = [] then Inr (this, [])
         else (case produce this draft dirtys of
                 Inl e \<Rightarrow> Inl e
               | Inr r \<Rightarrow> Inr (this \<lparr> state := fst r \<rparr>, snd r)))"

section \<open>Frames of the stages\<close>

text \<open>
  Each stage writes a fixed set of properties. \<open>erase_value\<close> and its siblings overwrite
  the properties a stage may write with constants, so that two states are equal after
  erasing exactly when they agree on every other property.
\<close>

definition erase_value :: "IFieldState \<Rightarrow> IFieldState" where
  "erase_value d = d\<lparr>values' := [], value' := Undefined, modified := False, pristine := False\<rparr>"

definition erase_shown :: "IFieldState \<Rightarrow> IFieldState" where
  "erase_shown d = d\<lparr>values' := [], value' := Undefined, visibleCacheValue := Undefined,
     invalid := False, valid := False\<rparr>"

definition erase_flags :: "IFieldState \<Rightarrow> IFieldState" where
  "erase_flags d = d\<lparr>loading := False, errors := [], effectErrors := [], warnings := [],
     effectWarnings := [], props := Undefined, mounted := False, unmounted := False\<rparr>"

definition erase_rules :: "IFieldState \<Rightarrow> IFieldState" where
  "erase_rules d = d\<lparr>rules := [], required := Undefined\<rparr>"

definition erase_messages :: "IFieldState \<Rightarrow> IFieldState" where
  "erase_messages d = d\<lparr>errors := [], warnings := [], effectErrors := [], effectWarnings := [],
     ruleErrors := [], ruleWarnings := []\<rparr>"

definition erase_editable :: "IFieldState \<Rightarrow> IFieldState" where
  "erase_editable d = d\<lparr>editable := None, selfEditable := None\<rparr>"

section \<open>Views of a state\<close>

text \<open>
  The test of the second block of \<^verbatim>\<open>produceSideEffects\<close>, under which the four effect
  channels are emptied, read on the working copy the pipeline is given.
\<close>

definition force_clears :: "IFieldState \<Rightarrow> FieldStateDirtyMap \<Rightarrow> bool" where
  "force_clears draft dirtys =
     (dirtys K_editable \<or> dirtys K_selfEditable \<or> visible draft = False
        \<or> unmounted draft = True)"

text \<open>
  What the first stage leaves in a rule channel and in an effect channel, written out
  from its six assignments: a dirty rule channel is normalized; a dirty raw channel
  (\<^verbatim>\<open>errors\<close>, \<^verbatim>\<open>warnings\<close>) is normalized into the effect channel, and a dirty effect
  channel is normalized after that.
\<close>

definition normalized_rule :: "bool \<Rightarrow> jsval list \<Rightarrow> jsval list" where
  "normalized_rule rule_dirty rule =
     (if rule_dirty then normalizeMessages (JArr None rule) else rule)"

definition normalized_effect ::
  "bool \<Rightarrow> bool \<Rightarrow> jsval list \<Rightarrow> jsval list \<Rightarrow> jsval list" where
  "normalized_effect raw_dirty effect_dirty raw effect =
     (let e = (if raw_dirty then normalizeMessages (JArr None raw) else effect)
      in if effect_dirty then normalizeMessages (JArr None e) else e)"

text \<open>The six message channels of a state, and its visibility and mount flags.\<close>

definition channels ::
  "IFieldState \<Rightarrow> jsval list \<times> jsval list \<times> jsval list \<times> jsval list \<times> jsval list \<times> jsval list" where
  "channels d =
     (errors d, warnings d, effectErrors d, effectWarnings d, ruleErrors d, ruleWarnings d)"

definition flags :: "IFieldState \<Rightarrow> bool \<times> bool \<times> bool" where
  "flags d = (visible d, mounted d, unmounted d)"

section \<open>A sample field\<close>

text \<open>
  A field constructed with both paths \<^verbatim>\<open>a\<close> and data type \<^verbatim>\<open>any\<close>, whose collaborator
  supplies the notifying callbacks and no reading callback; structural equality stands
  for \<^verbatim>\<open>isEqual\<close>, and the empty string, array and object are empty.
\<close>

definition sample_lib :: shared where
  "sample_lib = \<lparr> isEqual = (=),
     isEmpty = (\<lambda>v. v = JStr [] \<or> v = JArr None [] \<or> v = JObj None []) \<rparr>"

definition sample_props :: IFieldStateProps where
  "sample_props = \<lparr> getValue = None, getInitialValue = None, setValue = True,
     setInitialValue = True, needRemoveValue = None, unControlledValueChanged = True \<rparr>"

definition field0 :: FieldStateFactory where
  "field0 = construct sample_lib sample_props ''a'' ''a'' ''any''"

text \<open>The dirty map that marks one property.\<close>

definition only :: "key \<Rightarrow> FieldStateDirtyMap" where
  "only k = (\<lambda>k'. k' = k)"

text \<open>Mutations used as examples: each recipe writes one property of the working copy.\<close>

definition mutate_ruleErrors :: "IFieldState \<Rightarrow> IFieldState" where
  "mutate_ruleErrors d = d \<lparr> ruleErrors := [JStr ''required''] \<rparr>"

definition mutate_hide :: "IFieldState \<Rightarrow> IFieldState" where
  "mutate_hide d = d \<lparr> visible := False \<rparr>"

definition mutate_show :: "IFieldState \<Rightarrow> IFieldState" where
  "mutate_show d = d \<lparr> visible := True \<rparr>"

text \<open>The sample field after \<^verbatim>\<open>ruleErrors\<close> was set to one message, and after it was
  then hidden.\<close>

definition field_e :: FieldStateFactory where
  "field_e = field0 \<lparr> state := (state field0) \<lparr> ruleErrors := [JStr ''required''],
      errors := [JStr ''required''], invalid := True, valid := False \<rparr> \<rparr>"

definition mutate_editable_false :: "IFieldState \<Rightarrow> IFieldState" where
  "mutate_editable_false d = d \<lparr> editable := Some False \<rparr>"

text \<open>The field with the rule error after \<^verbatim>\<open>editable\<close> was set to \<^verbatim>\<open>false\<close>: still
  visible and not unmounted, its \<^verbatim>\<open>errors\<close> emptied.\<close>

definition field_e_locked :: FieldStateFactory where
  "field_e_locked = field_e \<lparr> state := (state field_e) \<lparr> editable := Some False,
      selfEditable := Some False, errors := [], invalid := False, valid := True \<rparr> \<rparr>"

definition state_e_hidden :: IFieldState where
  "state_e_hidden = (state field0) \<lparr> ruleErrors := [JStr ''required''], visible := False,
      values' := [Undefined] \<rparr>"

text \<open>A working copy of the sample field that was never given a value, has the initial
  value 7, and is being hidden.\<close>

definition draft_unvalued_hidden :: IFieldState where
  "draft_unvalued_hidden = (state field0) \<lparr> initialValue := JNum 7, visible := False \<rparr>"

definition mutate_value5 :: "IFieldState \<Rightarrow> IFieldState" where
  "mutate_value5 d = d \<lparr> value' := JNum 5 \<rparr>"

definition mutate_unmount :: "IFieldState \<Rightarrow> IFieldState" where
  "mutate_unmount d = d \<lparr> unmounted := True \<rparr>"

text \<open>The sample field after its value was set to 5, after it was then hidden, and after
  it was shown again.\<close>

definition field_5 :: FieldStateFactory where
  "field_5 = field0 \<lparr> state := (state field0) \<lparr> value' := JNum 5, values' := [JNum 5],
      modified := True, pristine := False \<rparr> \<rparr>"

definition field_5_hidden :: FieldStateFactory where
  "field_5_hidden = field_5 \<lparr> state := (state field_5) \<lparr> visible := False,
      value' := Undefined, values' := [Undefined], visibleCacheValue := JNum 5 \<rparr> \<rparr>"

definition field_5_shown :: FieldStateFactory where
  "field_5_shown = field_5_hidden \<lparr> state := (state field_5_hidden) \<lparr> visible := True,
      value' := JNum 5 \<rparr> \<rparr>"

text \<open>
  A field whose collaborator answers \<^verbatim>\<open>needRemoveValue\<close> with \<^verbatim>\<open>true\<close> (the remove-on-hide
  policy): freshly constructed, after \<^verbatim>\<open>unmounted\<close> was set, after its value was then set
  to 5, and after it was then hidden.
\<close>

definition remove_props :: IFieldStateProps where
  "remove_props = sample_props \<lparr> needRemoveValue := Some (\<lambda>p. True) \<rparr>"

definition field_r :: FieldStateFactory where
  "field_r = construct sample_lib remove_props ''a'' ''a'' ''any''"

definition field_r_unmounted :: FieldStateFactory where
  "field_r_unmounted = field_r \<lparr> state := (state field_r) \<lparr> unmounted := True,
      values' := [Undefined] \<rparr> \<rparr>"

definition field_r_5 :: FieldStateFactory where
  "field_r_5 = field_r_unmounted \<lparr> state := (state field_r_unmounted) \<lparr> value' := JNum 5,
      values' := [JNum 5], modified := True, pristine := False \<rparr> \<rparr>"

definition field_r_hidden :: FieldStateFactory where
  "field_r_hidden = field_r_5 \<lparr> state := (state field_r_5) \<lparr> visible := False,
      value' := Undefined, values' := [Undefined], visibleCacheValue := JNum 5 \<rparr> \<rparr>"

definition field_r_shown :: FieldStateFactory where
  "field_r_shown = field_r_hidden \<lparr> state := (state field_r_hidden) \<lparr> visible := True \<rparr> \<rparr>"

definition mutate_rules_null :: "IFieldState \<Rightarrow> IFieldState" where
  "mutate_rules_null d = d \<lparr> rules := [Null] \<rparr>"

section \<open>Rewritten rules\<close>

text \<open>
  An entry of a rules array that the reducer of \<^verbatim>\<open>getRulesFromRulesAndRequired\<close> passes
  on as one entry: not \<^verbatim>\<open>undefined\<close> or \<^verbatim>\<open>null\<close> (reading its \<^verbatim>\<open>required\<close> raises) and
  not an array (\<^verbatim>\<open>concat\<close> would splice its elements in).
\<close>

fun plain_entry :: "jsval \<Rightarrow> bool" where
  "plain_entry Undefined = False"
| "plain_entry Null = False"
| "plain_entry (JArr t xs) = False"
| "plain_entry v = True"

text \<open>An entry with its \<^verbatim>\<open>required\<close> key overwritten when it declares one.\<close>

definition rewrite_required :: "jsval \<Rightarrow> jsval \<Rightarrow> jsval" where
  "rewrite_required r item = (if declares_required item then spread_required item r else item)"

section \<open>More sample fields\<close>

definition mutate_required_true :: "IFieldState \<Rightarrow> IFieldState" where
  "mutate_required_true d = d \<lparr> required := JBool True \<rparr>"

text \<open>The sample field with the single rule \<^verbatim>\<open>{required: false, message: 'x'}\<close>.\<close>

definition field_m :: FieldStateFactory where
  "field_m = field0 \<lparr> state := (state field0)
      \<lparr> rules := [JObj None [(''required'', JBool False), (''message'', JStr ''x'')]] \<rparr> \<rparr>"





text \<open>An array-list field, and the mutation that sets its value to \<^verbatim>\<open>[null]\<close>.\<close>

definition field_a :: FieldStateFactory where
  "field_a = construct sample_lib sample_props ''a'' ''a'' ''array''"

definition mutate_value_null_item :: "IFieldState \<Rightarrow> IFieldState" where
  "mutate_value_null_item d = d \<lparr> value' := JArr None [Null] \<rparr>"

section \<open>Reachable fields\<close>

text \<open>
  The fields that construction followed by any sequence of returning commits can
  produce.
\<close>

inductive reachable :: "FieldStateFactory \<Rightarrow> bool" where
  constructed: "reachable (construct sh ps nodePath dataPath dt)"
| committed: "reachable this \<Longrightarrow> commit this recipe = Inr (this', calls) \<Longrightarrow> reachable this'"

definition mutate_mount :: "IFieldState \<Rightarrow> IFieldState" where
  "mutate_mount d = d \<lparr> mounted := True \<rparr>"

section \<open>Evaluating the model\<close>

lemmas model_defs =
  produce_def produceErrorsAndWarnings_def produceEditable_def produceValue_def
  produceValue_values_def produceValue_value_def produceValue_initialized_def
  fills_initial_def set_pristine_def produceSideEffects_def sync_flags_def
  validating_loading_def clear_messages_def reset_props_def sync_mounted_def set_validity_def
  hide_show_def remove_on_hide_def hide_value_def show_value_def produceRules_def getRulesFromRulesAndRequired_def
  isArrayList_def lower_char_def getOriginalValue_def normalizeMessages_def Let_def

lemmas commit_defs =
  commit_def dirtys_of_def dirtyCheck_def DEEP_INSPECT_PROPERTY_KEYS_def all_keys_def
  opt_bool_def

lemmas sample_defs =
  field0_def construct_def state0_def sample_lib_def sample_props_def only_def

lemmas mutation_defs =
  mutate_ruleErrors_def mutate_hide_def mutate_show_def mutate_value5_def mutate_unmount_def
  mutate_rules_null_def mutate_editable_false_def

lemmas field_defs =
  field_e_def field_e_locked_def state_e_hidden_def field_5_def field_5_hidden_def field_5_shown_def
  remove_props_def field_r_def field_r_unmounted_def field_r_5_def field_r_hidden_def
  field_r_shown_def

section \<open>Frame lemmas\<close>

lemma produceValue_values_frame:
  "produceValue_values this d dirtys = Inr d' \<Longrightarrow> erase_value d' = erase_value d"
  unfolding produceValue_values_def Let_def erase_value_def
  by (auto split: if_splits sum.splits)

lemma produceValue_value_frame:
  "produceValue_value this d dirtys = Inr d' \<Longrightarrow> erase_value d' = erase_value d"
  unfolding produceValue_value_def Let_def erase_value_def
  by (auto split: if_splits sum.splits)

lemma produceValue_initialized_frame:
  "erase_value (produceValue_initialized this d dirtys) = erase_value d"
  by (simp add: produceValue_initialized_def Let_def erase_value_def)

lemma set_pristine_frame: "erase_value (set_pristine this d) = erase_value d"
  by (simp add: set_pristine_def erase_value_def)

lemma produceValue_frame:
  assumes "produceValue this d dirtys = Inr r"
  shows "erase_value (fst r) = erase_value d"
proof -
  from assms obtain d1 d2 where
    1: "produceValue_values this d dirtys = Inr d1" and
    2: "produceValue_value this d1 dirtys = Inr d2" and
    3: "fst r = set_pristine this (produceValue_initialized this d2 dirtys)
        \<or> fst r = produceValue_initialized this d2 dirtys"
    unfolding produceValue_def Let_def
    by (auto split: sum.splits if_splits)
  from 3 have "erase_value (fst r) = erase_value d2"
    by (auto simp: set_pristine_frame produceValue_initialized_frame)
  with produceValue_values_frame[OF 1] produceValue_value_frame[OF 2]
  show ?thesis by simp
qed

lemma hide_value_frame: "erase_shown (fst (hide_value this d dirtys)) = erase_shown d"
  by (simp add: hide_value_def erase_shown_def Let_def)

lemma show_value_frame: "erase_shown (fst (show_value this d)) = erase_shown d"
  by (simp add: show_value_def erase_shown_def Let_def)

lemma hide_show_frame: "erase_shown (fst (hide_show this d dirtys)) = erase_shown d"
  by (simp add: hide_show_def Let_def hide_value_frame show_value_frame)

lemma set_validity_frame: "erase_shown (set_validity d) = erase_shown d"
  by (simp add: set_validity_def erase_shown_def)

lemma produceSideEffects_frame:
  "erase_shown (fst (produceSideEffects this d dirtys)) = erase_shown (sync_flags d dirtys)"
  by (simp add: produceSideEffects_def Let_def set_validity_frame hide_show_frame)

lemma validating_loading_frame: "erase_flags (validating_loading d dirtys) = erase_flags d"
  by (simp add: validating_loading_def erase_flags_def)

lemma clear_messages_frame: "erase_flags (clear_messages d dirtys) = erase_flags d"
  by (simp add: clear_messages_def erase_flags_def)

lemma reset_props_frame: "erase_flags (reset_props d) = erase_flags d"
  by (simp add: reset_props_def erase_flags_def)

lemma sync_mounted_frame: "erase_flags (sync_mounted d dirtys) = erase_flags d"
  by (simp add: sync_mounted_def Let_def erase_flags_def)

lemma sync_flags_frame: "erase_flags (sync_flags d dirtys) = erase_flags d"
  by (simp add: sync_flags_def sync_mounted_frame reset_props_frame clear_messages_frame
      validating_loading_frame)

lemma produceRules_frame:
  "produceRules d dirtys = Inr d' \<Longrightarrow> erase_rules d' = erase_rules d"
  unfolding produceRules_def Let_def erase_rules_def
  by (auto split: if_splits sum.splits)

lemma produceErrorsAndWarnings_frame:
  "erase_messages (produceErrorsAndWarnings d dirtys) = erase_messages d"
  by (simp add: produceErrorsAndWarnings_def Let_def erase_messages_def)

lemma produceEditable_frame:
  "erase_editable (produceEditable d dirtys) = erase_editable d"
  by (simp add: produceEditable_def Let_def erase_editable_def)

lemma produce_stages:
  assumes "produce this draft dirtys = Inr r"
  obtains r3 where
    "produceValue this (produceEditable (produceErrorsAndWarnings draft dirtys) dirtys) dirtys = Inr r3"
    "produceRules (fst (produceSideEffects this (fst r3) dirtys)) dirtys = Inr (fst r)"
    "snd r = snd r3 @ snd (produceSideEffects this (fst r3) dirtys)"
  using assms unfolding produce_def Let_def
  by (auto split: sum.splits)








section \<open>Message channels through the stages\<close>

lemma channels_value:
  assumes "erase_value a = erase_value b"
  shows "channels a = channels b"
  using arg_cong[OF assms, of channels] by (simp add: channels_def erase_value_def)

lemma channels_shown:
  assumes "erase_shown a = erase_shown b"
  shows "channels a = channels b"
  using arg_cong[OF assms, of channels] by (simp add: channels_def erase_shown_def)

lemma channels_rules:
  assumes "erase_rules a = erase_rules b"
  shows "channels a = channels b"
  using arg_cong[OF assms, of channels] by (simp add: channels_def erase_rules_def)

lemma channels_editable:
  assumes "erase_editable a = erase_editable b"
  shows "channels a = channels b"
  using arg_cong[OF assms, of channels] by (simp add: channels_def erase_editable_def)

lemma flags_value:
  assumes "erase_value a = erase_value b"
  shows "flags a = flags b"
  using arg_cong[OF assms, of flags] by (simp add: flags_def erase_value_def)

lemma flags_shown:
  assumes "erase_shown a = erase_shown b"
  shows "flags a = flags b"
  using arg_cong[OF assms, of flags] by (simp add: flags_def erase_shown_def)

lemma flags_rules:
  assumes "erase_rules a = erase_rules b"
  shows "flags a = flags b"
  using arg_cong[OF assms, of flags] by (simp add: flags_def erase_rules_def)

lemma flags_editable:
  assumes "erase_editable a = erase_editable b"
  shows "flags a = flags b"
  using arg_cong[OF assms, of flags] by (simp add: flags_def erase_editable_def)

lemma flags_messages:
  assumes "erase_messages a = erase_messages b"
  shows "flags a = flags b"
  using arg_cong[OF assms, of flags] by (simp add: flags_def erase_messages_def)

lemma flags_before_side_effects:
  assumes "produceValue this (produceEditable (produceErrorsAndWarnings draft dirtys) dirtys) dirtys
           = Inr r3"
  shows "flags (fst r3) = flags draft"
  using flags_value[OF produceValue_frame[OF assms]]
    flags_editable[OF produceEditable_frame, of "produceErrorsAndWarnings draft dirtys" dirtys]
    flags_messages[OF produceErrorsAndWarnings_frame, of draft dirtys]
  by simp

lemma channels_after_messages:
  "errors (produceErrorsAndWarnings d dirtys) =
     ruleErrors (produceErrorsAndWarnings d dirtys) @ effectErrors (produceErrorsAndWarnings d dirtys)"
  "warnings (produceErrorsAndWarnings d dirtys) =
     ruleWarnings (produceErrorsAndWarnings d dirtys)
       @ effectWarnings (produceErrorsAndWarnings d dirtys)"
  by (simp_all add: produceErrorsAndWarnings_def Let_def)

lemma validating_loading_keeps:
  "channels (validating_loading d dirtys) = channels d"
  "flags (validating_loading d dirtys) = flags d"
  by (simp_all add: validating_loading_def channels_def flags_def)

lemma clear_messages_channels:
  "channels (clear_messages d dirtys) =
     (if force_clears d dirtys then ([], [], [], [], ruleErrors d, ruleWarnings d)
      else channels d)"
  by (simp add: clear_messages_def force_clears_def channels_def)

lemma clear_messages_flags: "flags (clear_messages d dirtys) = flags d"
  by (simp add: clear_messages_def flags_def)

lemma reset_props_keeps:
  "channels (reset_props d) = channels d"
  "flags (reset_props d) = flags d"
  by (simp_all add: reset_props_def channels_def flags_def)

lemma sync_mounted_channels: "channels (sync_mounted d dirtys) = channels d"
  by (simp add: sync_mounted_def Let_def channels_def)

lemma sync_mounted_result:
  "visible (sync_mounted d dirtys) = visible d"
  "mounted (sync_mounted d dirtys) =
     (if dirtys K_mounted then mounted d
      else if dirtys K_unmounted then \<not> unmounted d else mounted d)"
  "unmounted (sync_mounted d dirtys) =
     (if dirtys K_mounted then \<not> mounted d else unmounted d)"
  by (auto simp add: sync_mounted_def Let_def)

lemma force_clears_flags: "flags a = flags b \<Longrightarrow> force_clears a dirtys = force_clears b dirtys"
  by (simp add: force_clears_def flags_def)

lemma sync_flags_channels:
  "channels (sync_flags d dirtys) =
     (if force_clears d dirtys then ([], [], [], [], ruleErrors d, ruleWarnings d)
      else channels d)"
proof -
  have f: "force_clears (validating_loading d dirtys) dirtys = force_clears d dirtys"
    by (rule force_clears_flags) (rule validating_loading_keeps)
  have r: "ruleErrors (validating_loading d dirtys) = ruleErrors d"
      "ruleWarnings (validating_loading d dirtys) = ruleWarnings d"
    using validating_loading_keeps(1)[of d dirtys] by (simp_all add: channels_def)
  show ?thesis
    by (simp only: sync_flags_def sync_mounted_channels reset_props_keeps
        clear_messages_channels f r validating_loading_keeps)
qed

lemma sync_flags_result:
  "visible (sync_flags d dirtys) = visible d"
  "mounted (sync_flags d dirtys) =
     (if dirtys K_mounted then mounted d
      else if dirtys K_unmounted then \<not> unmounted d else mounted d)"
  "unmounted (sync_flags d dirtys) =
     (if dirtys K_mounted then \<not> mounted d else unmounted d)"
proof -
  have "flags (reset_props (clear_messages (validating_loading d dirtys) dirtys)) = flags d"
    by (simp only: reset_props_keeps clear_messages_flags validating_loading_keeps)
  then have e: "visible (reset_props (clear_messages (validating_loading d dirtys) dirtys)) = visible d"
    "mounted (reset_props (clear_messages (validating_loading d dirtys) dirtys)) = mounted d"
    "unmounted (reset_props (clear_messages (validating_loading d dirtys) dirtys)) = unmounted d"
    by (simp_all add: flags_def)
  show "visible (sync_flags d dirtys) = visible d"
    "mounted (sync_flags d dirtys) =
     (if dirtys K_mounted then mounted d
      else if dirtys K_unmounted then \<not> unmounted d else mounted d)"
    "unmounted (sync_flags d dirtys) =
     (if dirtys K_mounted then \<not> mounted d else unmounted d)"
    by (simp_all only: sync_flags_def sync_mounted_result e)
qed

lemma all_keys_complete: "k \<in> set all_keys"
  by (cases k) (simp_all add: all_keys_def)

lemma no_dirty_iff: "(filter P all_keys = []) = (\<forall>k. \<not> P k)"
  using all_keys_complete by (auto simp add: filter_empty_conv)

lemma messages_result:
  "ruleErrors (produceErrorsAndWarnings d dirtys)
     = normalized_rule (dirtys K_ruleErrors) (ruleErrors d)"
  "ruleWarnings (produceErrorsAndWarnings d dirtys)
     = normalized_rule (dirtys K_ruleWarnings) (ruleWarnings d)"
  "effectErrors (produceErrorsAndWarnings d dirtys)
     = normalized_effect (dirtys K_errors) (dirtys K_effectErrors) (errors d) (effectErrors d)"
  "effectWarnings (produceErrorsAndWarnings d dirtys)
     = normalized_effect (dirtys K_warnings) (dirtys K_effectWarnings) (warnings d)
         (effectWarnings d)"
  by (simp_all add: produceErrorsAndWarnings_def normalized_rule_def normalized_effect_def
      Let_def)

lemma produce_channels_exact:
  assumes "produce this draft dirtys = Inr r"
  shows "channels (fst r) =
     (if force_clears draft dirtys
      then ([], [], [], [],
            ruleErrors (produceErrorsAndWarnings draft dirtys),
            ruleWarnings (produceErrorsAndWarnings draft dirtys))
      else channels (produceErrorsAndWarnings draft dirtys))"
proof -
  let ?d1 = "produceErrorsAndWarnings draft dirtys"
  from assms obtain r3 where
    v: "produceValue this (produceEditable ?d1 dirtys) dirtys = Inr r3"
    and ru: "produceRules (fst (produceSideEffects this (fst r3) dirtys)) dirtys = Inr (fst r)"
    by (rule produce_stages)
  have c3: "channels (fst r3) = channels ?d1"
    using channels_value[OF produceValue_frame[OF v]]
      channels_editable[OF produceEditable_frame, of ?d1 dirtys] by simp
  have f3: "force_clears (fst r3) dirtys = force_clears draft dirtys"
    by (rule force_clears_flags) (rule flags_before_side_effects[OF v])
  have c5: "channels (fst r) = channels (sync_flags (fst r3) dirtys)"
    using channels_rules[OF produceRules_frame[OF ru]]
      channels_shown[OF produceSideEffects_frame, of this "fst r3" dirtys] by simp
  have r3: "ruleErrors (fst r3) = ruleErrors ?d1" "ruleWarnings (fst r3) = ruleWarnings ?d1"
    using c3 by (simp_all add: channels_def)
  show ?thesis
    by (simp only: c5 sync_flags_channels f3 r3 c3)
qed

section \<open>Editability\<close>



section \<open>Messages\<close>

lemma commit_runs_pipeline:
  assumes "commit this recipe = Inr (this', calls)"
    and "dirtys_of this (state this) (recipe (state this)) k"
  shows "produce this (recipe (state this))
           (dirtys_of this (state this) (recipe (state this))) = Inr (state this', calls)"
proof -
  from assms(2) have "filter (dirtys_of this (state this) (recipe (state this))) all_keys \<noteq> []"
    by (auto simp add: no_dirty_iff)
  with assms(1) show ?thesis
    unfolding commit_def Let_def by (auto split: sum.splits)
qed

text \<open>
  Claim C7 as stated fails. The sample field holds one rule error; hiding it runs the
  pipeline on the working copy with \<^verbatim>\<open>visible\<close> dirty. The stage empties \<^verbatim>\<open>errors\<close> and
  \<^verbatim>\<open>effectErrors\<close> and leaves \<^verbatim>\<open>ruleErrors\<close>, so \<^verbatim>\<open>errors\<close> is empty while
  \<^verbatim>\<open>ruleErrors\<close> followed by \<^verbatim>\<open>effectErrors\<close> is not. The same happens when
  \<^verbatim>\<open>editable\<close> is set to \<^verbatim>\<open>false\<close> on the visible field; a following commit that marks
  no property dirty keeps that snapshot, although nothing would be force-cleared then.
\<close>

theorem errors_concat_counterexample:
  "commit field0 mutate_ruleErrors = Inr (field_e, [])
   \<and> produce field_e (mutate_hide (state field_e)) (only K_visible)
       = Inr (state_e_hidden, [Call_setValue ''a'' Undefined])
   \<and> commit field_e mutate_hide
       = Inr (field_e \<lparr> state := state_e_hidden \<rparr>, [Call_setValue ''a'' Undefined])
   \<and> errors state_e_hidden = []
   \<and> ruleErrors state_e_hidden @ effectErrors state_e_hidden = [JStr ''required'']
   \<and> commit field_e mutate_editable_false = Inr (field_e_locked, [])
   \<and> commit field_e_locked mutate_show = Inr (field_e_locked, [])
   \<and> force_clears (mutate_show (state field_e_locked))
         (dirtys_of field_e_locked (state field_e_locked) (mutate_show (state field_e_locked)))
       = False
   \<and> errors (state field_e_locked) = []
   \<and> ruleErrors (state field_e_locked) @ effectErrors (state field_e_locked)
       = [JStr ''required'']"
  by (simp add: model_defs commit_defs sample_defs mutation_defs field_defs force_clears_def)

text \<open>
  Claim C7, amended. After every run of the pipeline, that is after every commit that
  marks at least one property dirty (\<open>commit_runs_pipeline\<close>; a commit that marks none
  keeps the prior snapshot): \<^verbatim>\<open>ruleErrors\<close> and \<^verbatim>\<open>ruleWarnings\<close> are the committed rule
  channels, normalized when dirty, whether or not the side-effects stage force-clears.
  When the stage does not force-clear (neither \<^verbatim>\<open>editable\<close> nor \<^verbatim>\<open>selfEditable\<close> dirty,
  the working copy neither invisible nor unmounted), \<^verbatim>\<open>effectErrors\<close> and
  \<^verbatim>\<open>effectWarnings\<close> are the normalized effect channels, \<^verbatim>\<open>errors\<close> is \<^verbatim>\<open>ruleErrors\<close>
  followed by \<^verbatim>\<open>effectErrors\<close> and \<^verbatim>\<open>warnings\<close> is \<^verbatim>\<open>ruleWarnings\<close> followed by
  \<^verbatim>\<open>effectWarnings\<close>. When it force-clears, \<^verbatim>\<open>errors\<close>, \<^verbatim>\<open>effectErrors\<close>, \<^verbatim>\<open>warnings\<close>
  and \<^verbatim>\<open>effectWarnings\<close> are empty; so \<^verbatim>\<open>errors\<close> is \<^verbatim>\<open>ruleErrors\<close> followed by
  \<^verbatim>\<open>effectErrors\<close> exactly when the stage does not force-clear or \<^verbatim>\<open>ruleErrors\<close> is
  empty, and likewise for the warnings.
\<close>

theorem produce_errors_concat:
  assumes "produce this draft dirtys = Inr (st', calls)"
  shows "ruleErrors st' = normalized_rule (dirtys K_ruleErrors) (ruleErrors draft)
       \<and> ruleWarnings st' = normalized_rule (dirtys K_ruleWarnings) (ruleWarnings draft)
       \<and> effectErrors st' =
           (if force_clears draft dirtys then []
            else normalized_effect (dirtys K_errors) (dirtys K_effectErrors)
                   (errors draft) (effectErrors draft))
       \<and> effectWarnings st' =
           (if force_clears draft dirtys then []
            else normalized_effect (dirtys K_warnings) (dirtys K_effectWarnings)
                   (warnings draft) (effectWarnings draft))
       \<and> errors st' =
           (if force_clears draft dirtys then [] else ruleErrors st' @ effectErrors st')
       \<and> warnings st' =
           (if force_clears draft dirtys then [] else ruleWarnings st' @ effectWarnings st')
       \<and> (errors st' = ruleErrors st' @ effectErrors st')
           = (force_clears draft dirtys \<longrightarrow> ruleErrors st' = [])
       \<and> (warnings st' = ruleWarnings st' @ effectWarnings st')
           = (force_clears draft dirtys \<longrightarrow> ruleWarnings st' = [])"
proof -
  let ?d1 = "produceErrorsAndWarnings draft dirtys"
  have c: "channels st' =
     (if force_clears draft dirtys
      then ([], [], [], [], ruleErrors ?d1, ruleWarnings ?d1)
      else channels ?d1)"
    using produce_channels_exact[OF assms] by simp
  have e: "errors ?d1 = ruleErrors ?d1 @ effectErrors ?d1"
    "warnings ?d1 = ruleWarnings ?d1 @ effectWarnings ?d1"
    by (rule channels_after_messages)+
  show ?thesis
  proof (cases "force_clears draft dirtys")
    case True
    with c show ?thesis
      by (auto simp add: channels_def messages_result)
  next
    case False
    with c e show ?thesis
      by (auto simp add: channels_def messages_result)
  qed
qed

text \<open>
  Two runs of the pipeline on the sample field: setting a rule error (nothing is
  force-cleared, and \<^verbatim>\<open>errors\<close> is the concatenation), and hiding the field afterwards
  (the stage force-clears and the rule error stays).
\<close>

theorem produce_errors_concat_witness:
  "produce field0 (mutate_ruleErrors (state field0)) (only K_ruleErrors) = Inr (state field_e, [])
   \<and> force_clears (mutate_ruleErrors (state field0)) (only K_ruleErrors) = False
   \<and> ruleErrors (state field_e) = [JStr ''required'']
   \<and> errors (state field_e) = ruleErrors (state field_e) @ effectErrors (state field_e)
   \<and> produce field_e (mutate_hide (state field_e)) (only K_visible)
       = Inr (state_e_hidden, [Call_setValue ''a'' Undefined])
   \<and> force_clears (mutate_hide (state field_e)) (only K_visible)
   \<and> ruleErrors state_e_hidden = [JStr ''required'']
   \<and> errors state_e_hidden = [] \<and> effectErrors state_e_hidden = []
   \<and> warnings state_e_hidden = [] \<and> effectWarnings state_e_hidden = []"
proof -
  have h1: "produce field0 (mutate_ruleErrors (state field0)) (only K_ruleErrors)
      = Inr (state field_e, [])"
    by (simp add: model_defs sample_defs mutate_ruleErrors_def field_e_def)
  have h2: "produce field_e (mutate_hide (state field_e)) (only K_visible)
       = Inr (state_e_hidden, [Call_setValue ''a'' Undefined])"
    by (simp add: model_defs sample_defs mutate_hide_def field_e_def state_e_hidden_def)
  have f1: "force_clears (mutate_ruleErrors (state field0)) (only K_ruleErrors) = False"
    by (simp add: force_clears_def sample_defs mutate_ruleErrors_def)
  have f2: "force_clears (mutate_hide (state field_e)) (only K_visible)"
    by (simp add: force_clears_def mutate_hide_def)
  have n1: "normalized_rule (only K_ruleErrors K_ruleErrors)
             (ruleErrors (mutate_ruleErrors (state field0))) = [JStr ''required'']"
    by (simp add: normalized_rule_def normalizeMessages_def mutate_ruleErrors_def only_def)
  have n2: "normalized_rule (only K_visible K_ruleErrors)
             (ruleErrors (mutate_hide (state field_e))) = [JStr ''required'']"
    by (simp add: normalized_rule_def mutate_hide_def only_def field_e_def)
  from produce_errors_concat[OF h1] produce_errors_concat[OF h2] h1 h2 f1 f2 n1 n2
  show ?thesis by simp
qed

section \<open>Hiding a field\<close>

lemma hide_inputs_flags:
  assumes "erase_flags a = erase_flags b"
  shows "value' a = value' b" "visibleCacheValue a = visibleCacheValue b"
    "initialValue a = initialValue b" "display a = display b" "visible a = visible b"
    "unmountRemoveValue a = unmountRemoveValue b" "values' a = values' b"
  using arg_cong[OF assms, of value'] arg_cong[OF assms, of visibleCacheValue]
    arg_cong[OF assms, of initialValue] arg_cong[OF assms, of display]
    arg_cong[OF assms, of visible] arg_cong[OF assms, of unmountRemoveValue]
    arg_cong[OF assms, of values']
  by (simp_all add: erase_flags_def)

lemma remove_on_hide_sync:
  "remove_on_hide this (sync_flags d dirtys) = remove_on_hide this d"
  using hide_inputs_flags(6)[OF sync_flags_frame, of d dirtys]
  by (simp add: remove_on_hide_def)

lemma set_validity_keeps:
  "value' (set_validity d) = value' d" "values' (set_validity d) = values' d"
  "visibleCacheValue (set_validity d) = visibleCacheValue d"
  by (simp_all add: set_validity_def)

lemma hide_value_result:
  "visibleCacheValue (fst (hide_value this d dirtys)) =
     (if dirtys K_visibleCacheValue then visibleCacheValue d
      else if isValid (value' d) then value' d
      else if isValid (visibleCacheValue d) then visibleCacheValue d
      else initialValue d)"
  "value' (fst (hide_value this d dirtys)) = Undefined"
  "values' (fst (hide_value this d dirtys)) = set_slot0 (values' d) Undefined"
  by (simp_all add: hide_value_def Let_def)

lemma hide_show_hides:
  assumes "display d" and "visible d = False \<or> (remove_on_hide this d \<and> unmounted d = True)"
  shows "fst (hide_show this d dirtys) = fst (hide_value this d dirtys)"
  using assms by (auto simp add: hide_show_def Let_def)

lemma produceSideEffects_hides:
  assumes "dirtys K_visible \<or> dirtys K_mounted \<or> dirtys K_unmounted"
    and "display draft"
    and "visible draft = False
         \<or> (remove_on_hide this draft
             \<and> (if dirtys K_mounted then mounted draft = False else unmounted draft = True))"
  shows "fst (produceSideEffects this draft dirtys) =
     set_validity (fst (hide_value this (sync_flags draft dirtys) dirtys))"
proof -
  let ?d = "sync_flags draft dirtys"
  have d: "display ?d" using hide_inputs_flags(4)[OF sync_flags_frame, of draft dirtys] assms(2)
    by simp
  have v: "visible ?d = False \<or> (remove_on_hide this ?d \<and> unmounted ?d = True)"
    using assms(3) by (auto simp add: sync_flags_result remove_on_hide_sync)
  from assms(1) hide_show_hides[OF d v, of dirtys] show ?thesis
    by (simp add: produceSideEffects_def Let_def)
qed

text \<open>
  Claim C10. When the side-effects stage takes its hide branch (one of \<^verbatim>\<open>visible\<close>,
  \<^verbatim>\<open>mounted\<close>, \<^verbatim>\<open>unmounted\<close> dirty, \<^verbatim>\<open>display\<close> set, and the working copy invisible, or
  unmounted after the mount flags were synchronised under the remove-on-hide policy) and
  \<^verbatim>\<open>visibleCacheValue\<close> is not dirty, the cached value is the current value if it is
  valid, else the previous cached value if it is valid, else the initial value; the
  value and slot 0 of \<^verbatim>\<open>values\<close> are cleared.
\<close>

theorem hide_caches_by_fallback:
  assumes "dirtys K_visible \<or> dirtys K_mounted \<or> dirtys K_unmounted"
    and "display draft"
    and "visible draft = False
         \<or> (remove_on_hide this draft
             \<and> (if dirtys K_mounted then mounted draft = False else unmounted draft = True))"
    and "\<not> dirtys K_visibleCacheValue"
  shows "visibleCacheValue (fst (produceSideEffects this draft dirtys)) =
           (if isValid (value' draft) then value' draft
            else if isValid (visibleCacheValue draft) then visibleCacheValue draft
            else initialValue draft)
       \<and> value' (fst (produceSideEffects this draft dirtys)) = Undefined
       \<and> slot0 (values' (fst (produceSideEffects this draft dirtys))) = Undefined"
proof -
  have s: "slot0 (set_slot0 xs Undefined) = Undefined" for xs
    by (cases xs) simp_all
  show ?thesis
    using assms(4)
    by (simp add: produceSideEffects_hides[OF assms(1-3)] set_validity_keeps hide_value_result
        hide_inputs_flags[OF sync_flags_frame] s)
qed

text \<open>
  Hiding the sample field that never had a value and whose initial value is 7: the hide
  branch is taken and the initial value is cached.
\<close>

theorem hide_caches_by_fallback_witness:
  "only K_visible K_visible
   \<and> display draft_unvalued_hidden
   \<and> visible draft_unvalued_hidden = False
   \<and> only K_visible K_visibleCacheValue = False
   \<and> isValid (value' draft_unvalued_hidden) = False
   \<and> isValid (visibleCacheValue draft_unvalued_hidden) = False
   \<and> visibleCacheValue (fst (produceSideEffects field0 draft_unvalued_hidden (only K_visible)))
       = JNum 7
   \<and> value' (fst (produceSideEffects field0 draft_unvalued_hidden (only K_visible))) = Undefined"
proof -
  have 1: "only K_visible K_visible \<or> only K_visible K_mounted \<or> only K_visible K_unmounted"
    by (simp add: only_def)
  have 2: "display draft_unvalued_hidden"
    by (simp add: draft_unvalued_hidden_def sample_defs)
  have 3: "visible draft_unvalued_hidden = False
         \<or> (remove_on_hide field0 draft_unvalued_hidden
             \<and> (if only K_visible K_mounted then mounted draft_unvalued_hidden = False
                 else unmounted draft_unvalued_hidden = True))"
    by (simp add: draft_unvalued_hidden_def)
  have 4: "\<not> only K_visible K_visibleCacheValue"
    by (simp add: only_def)
  have 5: "isValid (value' draft_unvalued_hidden) = False"
    "isValid (visibleCacheValue draft_unvalued_hidden) = False"
    "initialValue draft_unvalued_hidden = JNum 7"
    by (simp_all add: draft_unvalued_hidden_def sample_defs)
  from hide_caches_by_fallback[OF 1 2 3 4] 2 4 5 show ?thesis
    by (simp add: only_def draft_unvalued_hidden_def)
qed

section \<open>Commits that change one flag\<close>

lemma produceValue_clean:
  assumes "\<not> dirtys K_values" "\<not> dirtys K_value" "\<not> dirtys K_initialized"
    "\<not> dirtys K_initialValue"
  shows "produceValue this d dirtys = Inr (d, [])"
  using assms
  by (simp add: produceValue_def produceValue_values_def produceValue_value_def
      produceValue_initialized_def fills_initial_def)

lemma produceRules_clean:
  assumes "\<not> dirtys K_required" "\<not> dirtys K_rules"
  shows "produceRules d dirtys = Inr d"
  using assms by (simp add: produceRules_def)

lemma produce_clean:
  assumes "\<not> dirtys K_values" "\<not> dirtys K_value" "\<not> dirtys K_initialized"
    "\<not> dirtys K_initialValue" "\<not> dirtys K_required" "\<not> dirtys K_rules"
  shows "produce this draft dirtys =
     Inr (produceSideEffects this
            (produceEditable (produceErrorsAndWarnings draft dirtys) dirtys) dirtys)"
  by (simp add: produce_def Let_def produceValue_clean[OF assms(1-4)]
      produceRules_clean[OF assms(5,6)])

text \<open>The properties the hide/show block reads.\<close>

lemma hide_view_messages:
  assumes "erase_messages a = erase_messages b"
  shows "display a = display b" "visible a = visible b" "mounted a = mounted b"
    "unmounted a = unmounted b" "unmountRemoveValue a = unmountRemoveValue b"
    "value' a = value' b" "visibleCacheValue a = visibleCacheValue b" "path a = path b"
  using arg_cong[OF assms, of display] arg_cong[OF assms, of visible]
    arg_cong[OF assms, of mounted] arg_cong[OF assms, of unmounted]
    arg_cong[OF assms, of unmountRemoveValue] arg_cong[OF assms, of value']
    arg_cong[OF assms, of visibleCacheValue] arg_cong[OF assms, of path]
  by (simp_all add: erase_messages_def)

lemma hide_view_editable:
  assumes "erase_editable a = erase_editable b"
  shows "display a = display b" "visible a = visible b" "mounted a = mounted b"
    "unmounted a = unmounted b" "unmountRemoveValue a = unmountRemoveValue b"
    "value' a = value' b" "visibleCacheValue a = visibleCacheValue b" "path a = path b"
  using arg_cong[OF assms, of display] arg_cong[OF assms, of visible]
    arg_cong[OF assms, of mounted] arg_cong[OF assms, of unmounted]
    arg_cong[OF assms, of unmountRemoveValue] arg_cong[OF assms, of value']
    arg_cong[OF assms, of visibleCacheValue] arg_cong[OF assms, of path]
  by (simp_all add: erase_editable_def)

lemma hide_view_flags:
  assumes "erase_flags a = erase_flags b"
  shows "display a = display b" "visible a = visible b"
    "unmountRemoveValue a = unmountRemoveValue b"
    "value' a = value' b" "visibleCacheValue a = visibleCacheValue b" "path a = path b"
  using arg_cong[OF assms, of display] arg_cong[OF assms, of visible]
    arg_cong[OF assms, of unmountRemoveValue] arg_cong[OF assms, of value']
    arg_cong[OF assms, of visibleCacheValue] arg_cong[OF assms, of path]
  by (simp_all add: erase_flags_def)

lemma hide_view_shown:
  assumes "erase_shown a = erase_shown b"
  shows "display a = display b" "visible a = visible b" "mounted a = mounted b"
    "unmounted a = unmounted b" "unmountRemoveValue a = unmountRemoveValue b"
    "path a = path b"
  using arg_cong[OF assms, of display] arg_cong[OF assms, of visible]
    arg_cong[OF assms, of mounted] arg_cong[OF assms, of unmounted]
    arg_cong[OF assms, of unmountRemoveValue] arg_cong[OF assms, of path]
  by (simp_all add: erase_shown_def)

lemma hide_view_before_side_effects:
  "display (produceEditable (produceErrorsAndWarnings d dirtys) dirtys) = display d"
  "visible (produceEditable (produceErrorsAndWarnings d dirtys) dirtys) = visible d"
  "mounted (produceEditable (produceErrorsAndWarnings d dirtys) dirtys) = mounted d"
  "unmounted (produceEditable (produceErrorsAndWarnings d dirtys) dirtys) = unmounted d"
  "unmountRemoveValue (produceEditable (produceErrorsAndWarnings d dirtys) dirtys)
     = unmountRemoveValue d"
  "value' (produceEditable (produceErrorsAndWarnings d dirtys) dirtys) = value' d"
  "visibleCacheValue (produceEditable (produceErrorsAndWarnings d dirtys) dirtys)
     = visibleCacheValue d"
  "path (produceEditable (produceErrorsAndWarnings d dirtys) dirtys) = path d"
  using hide_view_editable[OF produceEditable_frame, of "produceErrorsAndWarnings d dirtys" dirtys]
    hide_view_messages[OF produceErrorsAndWarnings_frame, of d dirtys]
  by simp_all

lemma produceSideEffects_view:
  "display (fst (produceSideEffects this d dirtys)) = display d"
  "visible (fst (produceSideEffects this d dirtys)) = visible d"
  "unmountRemoveValue (fst (produceSideEffects this d dirtys)) = unmountRemoveValue d"
  "path (fst (produceSideEffects this d dirtys)) = path d"
  "mounted (fst (produceSideEffects this d dirtys)) =
     (if dirtys K_mounted then mounted d
      else if dirtys K_unmounted then \<not> unmounted d else mounted d)"
  "unmounted (fst (produceSideEffects this d dirtys)) =
     (if dirtys K_mounted then \<not> mounted d else unmounted d)"
  using hide_view_shown[OF produceSideEffects_frame, of this d dirtys]
    hide_view_flags[OF sync_flags_frame, of d dirtys] sync_flags_result[of d dirtys]
  by simp_all

lemma show_value_result:
  "value' (fst (show_value this d)) = (if isValid (value' d) then value' d else visibleCacheValue d)"
  "visibleCacheValue (fst (show_value this d)) = visibleCacheValue d"
  "values' (fst (show_value this d)) = values' d"
  by (simp_all add: show_value_def Let_def)

lemma hide_show_shows:
  assumes "display d" and "visible d = True"
    and "\<not> (remove_on_hide this d \<and> unmounted d = True)"
  shows "fst (hide_show this d dirtys) = fst (show_value this d)"
  using assms by (auto simp add: hide_show_def Let_def)

lemma produceSideEffects_shows:
  assumes "dirtys K_visible \<or> dirtys K_mounted \<or> dirtys K_unmounted"
    and "display draft" and "visible draft = True"
    and "\<not> (remove_on_hide this draft
             \<and> (if dirtys K_mounted then mounted draft = False else unmounted draft = True))"
  shows "fst (produceSideEffects this draft dirtys) =
     set_validity (fst (show_value this (sync_flags draft dirtys)))"
proof -
  let ?d = "sync_flags draft dirtys"
  have d: "display ?d" "visible ?d = True"
    using hide_inputs_flags(4,5)[OF sync_flags_frame, of draft dirtys] assms(2,3)
    by simp_all
  have v: "\<not> (remove_on_hide this ?d \<and> unmounted ?d = True)"
    using assms(4) by (auto simp add: sync_flags_result remove_on_hide_sync)
  from assms(1) hide_show_shows[OF d v, of dirtys] show ?thesis
    by (simp add: produceSideEffects_def Let_def)
qed

lemma dirtys_of_visible:
  "dirtys_of this st (st \<lparr> visible := b \<rparr>) = (\<lambda>k. k = K_visible \<and> visible st \<noteq> b)"
  apply (rule ext)
  subgoal for k
    by (cases k) (auto simp add: dirtys_of_def dirtyCheck_def DEEP_INSPECT_PROPERTY_KEYS_def)
  done

lemma commit_visible:
  assumes "visible (state this) \<noteq> b"
  shows "commit this (\<lambda>d. d \<lparr> visible := b \<rparr>) =
     Inr (this \<lparr> state := fst (produceSideEffects this
              (produceEditable (produceErrorsAndWarnings ((state this) \<lparr> visible := b \<rparr>)
                 (only K_visible)) (only K_visible)) (only K_visible)) \<rparr>,
          snd (produceSideEffects this
              (produceEditable (produceErrorsAndWarnings ((state this) \<lparr> visible := b \<rparr>)
                 (only K_visible)) (only K_visible)) (only K_visible)))"
proof -
  have d: "dirtys_of this (state this) ((state this) \<lparr> visible := b \<rparr>) = only K_visible"
    using assms by (auto simp add: dirtys_of_visible only_def)
  have p: "produce this ((state this) \<lparr> visible := b \<rparr>) (only K_visible) =
     Inr (produceSideEffects this
            (produceEditable (produceErrorsAndWarnings ((state this) \<lparr> visible := b \<rparr>)
               (only K_visible)) (only K_visible)) (only K_visible))"
    by (rule produce_clean) (simp_all add: only_def)
  have f: "filter (only K_visible) all_keys \<noteq> []"
    by (simp add: all_keys_def only_def)
  show ?thesis
    by (simp add: commit_def Let_def d p f)
qed

section \<open>Hide/show round trip\<close>

lemma remove_on_hide_cong:
  assumes "fprops a = fprops b" "path (state a) = path (state b)"
    "unmountRemoveValue d = unmountRemoveValue e"
  shows "remove_on_hide a d = remove_on_hide b e"
  unfolding remove_on_hide_def assms by (rule refl)

lemma hidden_state:
  fixes this :: FieldStateFactory
  assumes "display st" "value' st = JNum 5"
  defines "st1 \<equiv> fst (produceSideEffects this
              (produceEditable (produceErrorsAndWarnings (st \<lparr> visible := False \<rparr>)
                 (only K_visible)) (only K_visible)) (only K_visible))"
  shows "value' st1 = Undefined" "visibleCacheValue st1 = JNum 5"
    "display st1" "visible st1 = False" "unmounted st1 = unmounted st"
    "unmountRemoveValue st1 = unmountRemoveValue st" "path st1 = path st"
proof -
  let ?o = "only K_visible"
  let ?d2 = "produceEditable (produceErrorsAndWarnings (st \<lparr> visible := False \<rparr>) ?o) ?o"
  have v: "display ?d2" "visible ?d2 = False" "value' ?d2 = JNum 5" "unmounted ?d2 = unmounted st"
    "unmountRemoveValue ?d2 = unmountRemoveValue st" "path ?d2 = path st"
    using assms(1,2) by (simp_all add: hide_view_before_side_effects)
  have k: "?o K_visible \<or> ?o K_mounted \<or> ?o K_unmounted" by (simp add: only_def)
  have h: "visible ?d2 = False
         \<or> (remove_on_hide this ?d2
             \<and> (if ?o K_mounted then mounted ?d2 = False else unmounted ?d2 = True))"
    using v(2) by simp
  have e: "st1 = set_validity (fst (hide_value this (sync_flags ?d2 ?o) ?o))"
    unfolding st1_def by (rule produceSideEffects_hides[OF k v(1) h])
  have n: "\<not> ?o K_visibleCacheValue" by (simp add: only_def)
  show "value' st1 = Undefined"
    by (simp add: e set_validity_keeps hide_value_result)
  show "visibleCacheValue st1 = JNum 5"
    using n v(3)
    by (simp add: e set_validity_keeps hide_value_result hide_inputs_flags[OF sync_flags_frame])
  show "display st1" "visible st1 = False" "unmounted st1 = unmounted st"
    "unmountRemoveValue st1 = unmountRemoveValue st" "path st1 = path st"
    unfolding st1_def using v by (simp_all add: produceSideEffects_view only_def)
qed

lemma shown_state:
  fixes this1 :: FieldStateFactory
  assumes "display st1" "value' st1 = Undefined" "visibleCacheValue st1 = JNum 5"
  defines "st2 \<equiv> fst (produceSideEffects this1
              (produceEditable (produceErrorsAndWarnings (st1 \<lparr> visible := True \<rparr>)
                 (only K_visible)) (only K_visible)) (only K_visible))"
  shows "value' st2 =
     (if remove_on_hide this1 st1 \<and> unmounted st1 then Undefined else JNum 5)"
proof -
  let ?o = "only K_visible"
  let ?d2 = "produceEditable (produceErrorsAndWarnings (st1 \<lparr> visible := True \<rparr>) ?o) ?o"
  have v: "display ?d2" "visible ?d2 = True" "value' ?d2 = Undefined"
    "visibleCacheValue ?d2 = JNum 5" "unmounted ?d2 = unmounted st1"
    "unmountRemoveValue ?d2 = unmountRemoveValue st1"
    using assms(1-3) by (simp_all add: hide_view_before_side_effects)
  have k: "?o K_visible \<or> ?o K_mounted \<or> ?o K_unmounted" by (simp add: only_def)
  have r: "remove_on_hide this1 ?d2 = remove_on_hide this1 st1"
    by (rule remove_on_hide_cong) (simp_all add: v)
  have m: "\<not> ?o K_mounted" by (simp add: only_def)
  show ?thesis
  proof (cases "remove_on_hide this1 st1 \<and> unmounted st1")
    case True
    then have h: "visible ?d2 = False
         \<or> (remove_on_hide this1 ?d2
             \<and> (if ?o K_mounted then mounted ?d2 = False else unmounted ?d2 = True))"
      using r v(5) m by simp
    have "st2 = set_validity (fst (hide_value this1 (sync_flags ?d2 ?o) ?o))"
      unfolding st2_def by (rule produceSideEffects_hides[OF k v(1) h])
    then show ?thesis using True by (simp add: set_validity_keeps hide_value_result)
  next
    case False
    then have h: "\<not> (remove_on_hide this1 ?d2
             \<and> (if ?o K_mounted then mounted ?d2 = False else unmounted ?d2 = True))"
      using r v(5) m by simp
    have "st2 = set_validity (fst (show_value this1 (sync_flags ?d2 ?o)))"
      unfolding st2_def by (rule produceSideEffects_shows[OF k v(1) v(2) h])
    then show ?thesis using False v(3,4)
      by (simp add: set_validity_keeps show_value_result hide_inputs_flags[OF sync_flags_frame])
  qed
qed

text \<open>
  Claim C4 as stated fails. The field below follows the remove-on-hide policy; it was
  unmounted, then given the value 5, so it has \<^verbatim>\<open>display\<close> true, \<^verbatim>\<open>visible\<close> true and
  value 5. Hiding it caches 5 and clears the value, but showing it again takes the hide
  branch once more, because \<^verbatim>\<open>unmounted\<close> is still true: the value stays \<^verbatim>\<open>undefined\<close>.
\<close>

theorem round_trip_counterexample:
  "commit field_r mutate_unmount
     = Inr (field_r_unmounted, [Call_needRemoveValue ''a'', Call_setValue ''a'' Undefined])
   \<and> commit field_r_unmounted mutate_value5
     = Inr (field_r_5, [Call_setValue ''a'' (JNum 5)])
   \<and> display (state field_r_5) \<and> visible (state field_r_5)
   \<and> value' (state field_r_5) = JNum 5
   \<and> commit field_r_5 mutate_hide
     = Inr (field_r_hidden, [Call_needRemoveValue ''a'', Call_setValue ''a'' Undefined])
   \<and> visibleCacheValue (state field_r_hidden) = JNum 5
   \<and> commit field_r_hidden mutate_show
     = Inr (field_r_shown, [Call_needRemoveValue ''a'', Call_setValue ''a'' Undefined])
   \<and> value' (state field_r_shown) = Undefined"
  by (simp add: model_defs commit_defs sample_defs mutation_defs field_defs)

text \<open>
  Claim C4, amended. For a field with \<^verbatim>\<open>display\<close> true, \<^verbatim>\<open>visible\<close> true and value 5,
  committing \<^verbatim>\<open>{visible: false}\<close> returns with value \<^verbatim>\<open>undefined\<close> and
  \<^verbatim>\<open>visibleCacheValue\<close> 5; the following commit of \<^verbatim>\<open>{visible: true}\<close> returns with value
  5 again, unless the field is unmounted under the remove-on-hide policy
  (\<^verbatim>\<open>unmountRemoveValue\<close> set and \<^verbatim>\<open>needRemoveValue(path)\<close> true), in which case the value
  stays \<^verbatim>\<open>undefined\<close>.
\<close>

theorem hide_show_round_trip:
  assumes "display (state this)" "visible (state this)" "value' (state this) = JNum 5"
  shows "\<exists>this1 calls1 this2 calls2.
      commit this mutate_hide = Inr (this1, calls1)
      \<and> value' (state this1) = Undefined
      \<and> visibleCacheValue (state this1) = JNum 5
      \<and> commit this1 mutate_show = Inr (this2, calls2)
      \<and> value' (state this2) =
          (if remove_on_hide this (state this) \<and> unmounted (state this)
           then Undefined else JNum 5)"
proof -
  let ?o = "only K_visible"
  let ?r1 = "produceSideEffects this
              (produceEditable (produceErrorsAndWarnings ((state this) \<lparr> visible := False \<rparr>)
                 ?o) ?o) ?o"
  let ?this1 = "this \<lparr> state := fst ?r1 \<rparr>"
  let ?r2 = "produceSideEffects ?this1
              (produceEditable (produceErrorsAndWarnings ((state ?this1) \<lparr> visible := True \<rparr>)
                 ?o) ?o) ?o"
  let ?this2 = "?this1 \<lparr> state := fst ?r2 \<rparr>"
  have mh: "mutate_hide = (\<lambda>d. d \<lparr> visible := False \<rparr>)"
    and ms: "mutate_show = (\<lambda>d. d \<lparr> visible := True \<rparr>)"
    by (simp_all add: mutate_hide_def mutate_show_def fun_eq_iff)
  have c1: "commit this mutate_hide = Inr (?this1, snd ?r1)"
    unfolding mh using assms(2) by (intro commit_visible) simp
  note h = hidden_state[OF assms(1,3), of this]
  have s1: "state ?this1 = fst ?r1" by simp
  have c2: "commit ?this1 mutate_show = Inr (?this2, snd ?r2)"
    unfolding ms using h(4) by (intro commit_visible) simp
  have r: "remove_on_hide ?this1 (fst ?r1) = remove_on_hide this (state this)"
    by (rule remove_on_hide_cong) (simp_all add: h)
  have v2: "value' (state ?this2) =
          (if remove_on_hide this (state this) \<and> unmounted (state this)
           then Undefined else JNum 5)"
    using shown_state[OF h(3) h(1) h(2), of ?this1] r h(5) by simp
  have g1: "value' (state ?this1) = Undefined" using h(1) by simp
  have g2: "visibleCacheValue (state ?this1) = JNum 5" using h(2) by simp
  show ?thesis
    apply (rule exI[where x = ?this1])
    apply (rule exI[where x = "snd ?r1"])
    apply (rule exI[where x = ?this2])
    apply (rule exI[where x = "snd ?r2"])
    apply (intro conjI)
        apply (rule c1)
       apply (rule g1)
      apply (rule g2)
     apply (rule c2)
    apply (rule v2)
    done
qed

text \<open>
  The sample field with value 5 (no \<^verbatim>\<open>needRemoveValue\<close> callback): the round trip
  restores 5.
\<close>

theorem hide_show_round_trip_witness:
  "display (state field_5) \<and> visible (state field_5) \<and> value' (state field_5) = JNum 5
   \<and> remove_on_hide field_5 (state field_5) = False
   \<and> (\<exists>this1 calls1 this2 calls2.
        commit field_5 mutate_hide = Inr (this1, calls1)
        \<and> value' (state this1) = Undefined
        \<and> visibleCacheValue (state this1) = JNum 5
        \<and> commit this1 mutate_show = Inr (this2, calls2)
        \<and> value' (state this2) = JNum 5)"
proof -
  have 1: "display (state field_5)" and 2: "visible (state field_5)"
    and 3: "value' (state field_5) = JNum 5"
    and 4: "remove_on_hide field_5 (state field_5) = False"
    by (simp_all add: field_5_def sample_defs remove_on_hide_def)
  from hide_show_round_trip[OF 1 2 3] 1 2 3 4 show ?thesis by simp
qed

section \<open>The value and slot 0 of the values\<close>

text \<open>
  Claim C1 fails on the code. The sample field is given the value 5, hidden, and shown
  again. The show branch of the side-effects stage restores \<^verbatim>\<open>value\<close> from
  \<^verbatim>\<open>visibleCacheValue\<close> and does not write \<^verbatim>\<open>values[0]\<close> (the hide branch, and every
  branch of the value stage, write both): after the last commit the value is 5 and slot
  0 of the values is \<^verbatim>\<open>undefined\<close>.
\<close>

theorem show_restores_value_only:
  "commit field0 mutate_value5 = Inr (field_5, [Call_setValue ''a'' (JNum 5)])
   \<and> commit field_5 mutate_hide = Inr (field_5_hidden, [Call_setValue ''a'' Undefined])
   \<and> produce field_5_hidden (mutate_show (state field_5_hidden)) (only K_visible)
       = Inr (state field_5_shown, [Call_setValue ''a'' (JNum 5)])
   \<and> commit field_5_hidden mutate_show
       = Inr (field_5_shown, [Call_setValue ''a'' (JNum 5)])
   \<and> value' (state field_5_shown) = JNum 5
   \<and> slot0 (values' (state field_5_shown)) = Undefined"
  by (simp add: model_defs commit_defs sample_defs mutation_defs field_defs)

section \<open>Exceptions\<close>

text \<open>
  Claim C3 fails on the code. A mutation that sets \<^verbatim>\<open>rules\<close> to an array holding
  \<^verbatim>\<open>null\<close> makes \<^verbatim>\<open>getRequiredFromRulesAndRequired\<close> read \<^verbatim>\<open>rules[0].required\<close> of
  \<^verbatim>\<open>null\<close>, which raises a \<^verbatim>\<open>TypeError\<close>; the pipeline and the commit end with it.
  With \<^verbatim>\<open>required\<close> dirty as well, the reducer of \<^verbatim>\<open>getRulesFromRulesAndRequired\<close>
  raises on the same entry once another entry declares \<^verbatim>\<open>required\<close>. On an array-list
  field, setting the value to \<^verbatim>\<open>[null]\<close> raises in \<^verbatim>\<open>tagArrayList\<close>, which assigns the
  tag to every item whose \<^verbatim>\<open>typeof\<close> is \<^verbatim>\<open>'object'\<close>.
\<close>

theorem null_rule_raises:
  "getRequiredFromRulesAndRequired [Null] (JBool False) = Inl TypeError
   \<and> produce field0 (mutate_rules_null (state field0)) (only K_rules) = Inl TypeError
   \<and> commit field0 mutate_rules_null = Inl TypeError
   \<and> getRulesFromRulesAndRequired [JObj None [(''required'', JBool True)], Null] (JBool False)
       = Inl TypeError
   \<and> commit field_a mutate_value_null_item = Inl TypeError"
  by (simp add: model_defs commit_defs sample_defs mutation_defs declares_required_def
      rewrite_rule_def rewrite_tail_def field_a_def mutate_value_null_item_def
      tagArrayList_def)

section \<open>Rules and required\<close>

lemma declares_required_plain:
  assumes "plain_entry item"
  shows "get_prop item ''required'' =
           Inr (case item of JObj t kvs \<Rightarrow>
                  (case map_of kvs ''required'' of None \<Rightarrow> Undefined | Some v \<Rightarrow> v)
                | _ \<Rightarrow> Undefined)"
    and "declares_required item =
           (case item of JObj t kvs \<Rightarrow>
              isValid (case map_of kvs ''required'' of None \<Rightarrow> Undefined | Some v \<Rightarrow> v)
            | _ \<Rightarrow> False)"
  using assms by (cases item; simp add: declares_required_def)+

lemma js_concat_plain: "plain_entry item \<Longrightarrow> js_concat buf item = buf @ [item]"
  by (cases item) simp_all

lemma spread_required_plain: "plain_entry (spread_required item r)"
  by (cases item) simp_all

lemma rewrite_tail_plain:
  assumes "plain_entry item"
  shows "rewrite_tail r buf item = Inr (buf @ [rewrite_required r item])"
  using assms
  by (cases item)
    (simp_all add: rewrite_tail_def rewrite_required_def declares_required_def)

lemma rewrite_rule_plain:
  assumes "plain_entry item"
  shows "rewrite_rule r buf item = Inr (buf @ [rewrite_required r item])"
proof (cases "declares_required item")
  case True
  then have s: "buf @ [rewrite_required r item] = js_concat buf (spread_required item r)"
    by (simp add: rewrite_required_def js_concat_plain[OF spread_required_plain])
  from assms True show ?thesis
    unfolding rewrite_rule_def Let_def rewrite_tail_plain[OF assms] s
    by (cases item) (simp_all add: declares_required_def)
next
  case False
  with assms show ?thesis
    unfolding rewrite_rule_def Let_def rewrite_tail_plain[OF assms]
    by (cases item) (simp_all add: declares_required_def)
qed

lemma reduce_rules_plain:
  "list_all plain_entry items \<Longrightarrow>
   reduce_rules r buf items = Inr (buf @ map (rewrite_required r) items)"
proof (induction items arbitrary: buf)
  case Nil
  show ?case by simp
next
  case (Cons item items)
  then show ?case by (simp add: rewrite_rule_plain)
qed

lemma getRules_rewrites:
  assumes "isValid r" "list_ex declares_required rs" "list_all plain_entry rs"
  shows "getRulesFromRulesAndRequired rs r = Inr (map (rewrite_required r) rs)"
proof -
  from assms(2) have "rs \<noteq> []" by auto
  with assms show ?thesis
    by (simp add: getRulesFromRulesAndRequired_def reduce_rules_plain)
qed

lemma rewritten_entry:
  assumes "declares_required item"
  shows "get_prop (rewrite_required r item) ''required'' = Inr r"
    and "k \<noteq> ''required'' \<Longrightarrow> get_prop (rewrite_required r item) k = get_prop item k"
  using assms
  by (cases item; simp add: rewrite_required_def declares_required_def update_conv')+

text \<open>
  Claim C2 as stated fails. With the single rule \<^verbatim>\<open>{required: false, message: 'x'}\<close>,
  which pairs \<^verbatim>\<open>required\<close> with a \<^verbatim>\<open>message\<close> and carries exactly 2 keys, a commit that
  sets \<^verbatim>\<open>required\<close> to \<^verbatim>\<open>true\<close> rewrites the entry; so it does the one-key rule
  \<^verbatim>\<open>{required: false}\<close>.
\<close>

theorem rewrite_counterexample:
  "keys_length (JObj None [(''required'', JBool False), (''message'', JStr ''x'')]) = 2
   \<and> getRulesFromRulesAndRequired
        [JObj None [(''required'', JBool False), (''message'', JStr ''x'')]] (JBool True)
       = Inr [JObj None [(''required'', JBool True), (''message'', JStr ''x'')]]
   \<and> getRulesFromRulesAndRequired [JObj None [(''required'', JBool False)]] (JBool True)
       = Inr [JObj None [(''required'', JBool True)]]
   \<and> commit field_m mutate_required_true
       = Inr (field_m \<lparr> state := (state field_m) \<lparr> required := JBool True,
                rules := [JObj None [(''required'', JBool True), (''message'', JStr ''x'')]] \<rparr> \<rparr>,
              [])"
  by (simp add: model_defs commit_defs sample_defs field_m_def mutate_required_true_def
      declares_required_def rewrite_rule_def rewrite_tail_def)

text \<open>
  Claim C2, amended. When \<^verbatim>\<open>required\<close> is dirty and valid, at least one rule declares a
  valid \<^verbatim>\<open>required\<close>, and no rule is \<^verbatim>\<open>null\<close>, \<^verbatim>\<open>undefined\<close> or an array, the rules stage
  returns with every entry that declares a valid \<^verbatim>\<open>required\<close> rewritten, whatever its
  \<^verbatim>\<open>message\<close> and number of keys: its \<^verbatim>\<open>required\<close> is the new value and its other keys
  are as before. The other entries pass through unchanged, and \<^verbatim>\<open>required\<close> itself is
  left as committed.
\<close>

theorem produceRules_rewrites_required:
  assumes "dirtys K_required" "isValid (required draft)"
    "list_ex declares_required (rules draft)" "list_all plain_entry (rules draft)"
  shows "produceRules draft dirtys =
           Inr (draft \<lparr> rules := map (rewrite_required (required draft)) (rules draft) \<rparr>)
       \<and> (\<forall>item. declares_required item \<longrightarrow>
             get_prop (rewrite_required (required draft) item) ''required''
               = Inr (required draft)
             \<and> (\<forall>k. k \<noteq> ''required'' \<longrightarrow>
                  get_prop (rewrite_required (required draft) item) k = get_prop item k))
       \<and> (\<forall>item. \<not> declares_required item \<longrightarrow>
             rewrite_required (required draft) item = item)"
proof -
  have "produceRules draft dirtys =
           Inr (draft \<lparr> rules := map (rewrite_required (required draft)) (rules draft) \<rparr>)"
    using assms(1) by (simp add: produceRules_def getRules_rewrites[OF assms(2-4)])
  then show ?thesis
    by (simp add: rewritten_entry) (simp add: rewrite_required_def)
qed

text \<open>
  The rules \<^verbatim>\<open>[{required: false, message: 'x'}, 'email']\<close> with \<^verbatim>\<open>required\<close> committed as
  \<^verbatim>\<open>true\<close>: the first entry is rewritten, the second passes through.
\<close>

theorem produceRules_rewrites_required_witness:
  "only K_required K_required
   \<and> isValid (JBool True)
   \<and> list_ex declares_required
        [JObj None [(''required'', JBool False), (''message'', JStr ''x'')], JStr ''email'']
   \<and> list_all plain_entry
        [JObj None [(''required'', JBool False), (''message'', JStr ''x'')], JStr ''email'']
   \<and> produceRules
        ((state field0) \<lparr> required := JBool True,
           rules := [JObj None [(''required'', JBool False), (''message'', JStr ''x'')],
                     JStr ''email''] \<rparr>)
        (only K_required)
       = Inr ((state field0) \<lparr> required := JBool True,
           rules := [JObj None [(''required'', JBool True), (''message'', JStr ''x'')],
                     JStr ''email''] \<rparr>)"
proof -
  let ?rs = "[JObj None [(''required'', JBool False), (''message'', JStr ''x'')], JStr ''email'']"
  let ?d = "(state field0) \<lparr> required := JBool True, rules := ?rs \<rparr>"
  have 1: "only K_required K_required" by (simp add: only_def)
  have 2: "isValid (required ?d)" by simp
  have 3: "list_ex declares_required (rules ?d)" by (simp add: declares_required_def)
  have 4: "list_all plain_entry (rules ?d)" by simp
  from produceRules_rewrites_required[where dirtys = "only K_required" and draft = ?d, OF 1 2 3 4]
    1 3 4 show ?thesis
    by (simp add: rewrite_required_def declares_required_def)
qed

section \<open>Reads\<close>





section \<open>Mounted and unmounted\<close>

lemma produce_mounted:
  assumes "produce this draft dirtys = Inr r"
  shows "mounted (fst r) =
           (if dirtys K_mounted then mounted draft
            else if dirtys K_unmounted then \<not> unmounted draft else mounted draft)"
    and "unmounted (fst r) = (if dirtys K_mounted then \<not> mounted draft else unmounted draft)"
proof -
  from assms obtain r3 where
    v: "produceValue this (produceEditable (produceErrorsAndWarnings draft dirtys) dirtys) dirtys
        = Inr r3"
    and ru: "produceRules (fst (produceSideEffects this (fst r3) dirtys)) dirtys = Inr (fst r)"
    by (rule produce_stages)
  have 3: "mounted (fst r3) = mounted draft" "unmounted (fst r3) = unmounted draft"
    using flags_before_side_effects[OF v] by (simp_all add: flags_def)
  have 5: "mounted (fst r) = mounted (sync_flags (fst r3) dirtys)"
    "unmounted (fst r) = unmounted (sync_flags (fst r3) dirtys)"
    using flags_rules[OF produceRules_frame[OF ru]]
      flags_shown[OF produceSideEffects_frame, of this "fst r3" dirtys]
    by (simp_all add: flags_def)
  show "mounted (fst r) =
           (if dirtys K_mounted then mounted draft
            else if dirtys K_unmounted then \<not> unmounted draft else mounted draft)"
    and "unmounted (fst r) = (if dirtys K_mounted then \<not> mounted draft else unmounted draft)"
    by (simp_all only: 5 sync_flags_result 3)
qed

lemma dirtys_of_mount_flags:
  "dirtys_of this base draft K_mounted = (mounted base \<noteq> mounted draft)"
  "dirtys_of this base draft K_unmounted = (unmounted base \<noteq> unmounted draft)"
  by (auto simp add: dirtys_of_def dirtyCheck_def DEEP_INSPECT_PROPERTY_KEYS_def)

lemma commit_cases:
  assumes "commit this recipe = Inr (this', calls)"
  shows "(this' = this
          \<and> filter (dirtys_of this (state this) (recipe (state this))) all_keys = [])
       \<or> (\<exists>r. produce this (recipe (state this))
                 (dirtys_of this (state this) (recipe (state this))) = Inr r
              \<and> state this' = fst r)"
  using assms unfolding commit_def Let_def
  by (auto split: if_splits sum.splits)

lemma commit_mount_flags:
  assumes "commit this recipe = Inr (this', calls)"
  shows "mounted (state this') =
           (if mounted (recipe (state this)) \<noteq> mounted (state this)
            then mounted (recipe (state this))
            else if unmounted (recipe (state this)) \<noteq> unmounted (state this)
            then \<not> unmounted (recipe (state this)) else mounted (state this))"
    and "unmounted (state this') =
           (if mounted (recipe (state this)) \<noteq> mounted (state this)
            then \<not> mounted (recipe (state this)) else unmounted (recipe (state this)))"
proof -
  from commit_cases[OF assms]
  have "mounted (state this') =
           (if mounted (recipe (state this)) \<noteq> mounted (state this)
            then mounted (recipe (state this))
            else if unmounted (recipe (state this)) \<noteq> unmounted (state this)
            then \<not> unmounted (recipe (state this)) else mounted (state this))
      \<and> unmounted (state this') =
           (if mounted (recipe (state this)) \<noteq> mounted (state this)
            then \<not> mounted (recipe (state this)) else unmounted (recipe (state this)))"
  proof
    assume "this' = this
          \<and> filter (dirtys_of this (state this) (recipe (state this))) all_keys = []"
    then have e: "this' = this"
      and "filter (dirtys_of this (state this) (recipe (state this))) all_keys = []"
      by simp_all
    then have "\<not> dirtys_of this (state this) (recipe (state this)) K_mounted"
      "\<not> dirtys_of this (state this) (recipe (state this)) K_unmounted"
      by (simp_all add: no_dirty_iff)
    then show ?thesis using e by (simp add: dirtys_of_mount_flags)
  next
    assume "\<exists>r. produce this (recipe (state this))
                 (dirtys_of this (state this) (recipe (state this))) = Inr r
              \<and> state this' = fst r"
    then obtain r where p: "produce this (recipe (state this))
                 (dirtys_of this (state this) (recipe (state this))) = Inr r"
      and s: "state this' = fst r" by blast
    show ?thesis
      unfolding s produce_mounted[OF p] dirtys_of_mount_flags by auto
  qed
  then show "mounted (state this') =
           (if mounted (recipe (state this)) \<noteq> mounted (state this)
            then mounted (recipe (state this))
            else if unmounted (recipe (state this)) \<noteq> unmounted (state this)
            then \<not> unmounted (recipe (state this)) else mounted (state this))"
    and "unmounted (state this') =
           (if mounted (recipe (state this)) \<noteq> mounted (state this)
            then \<not> mounted (recipe (state this)) else unmounted (recipe (state this)))"
    by simp_all
qed

lemma reachable_not_both:
  "reachable this \<Longrightarrow> \<not> (mounted (state this) \<and> unmounted (state this))"
proof (induction rule: reachable.induct)
  case (constructed sh ps nodePath dataPath dt)
  show ?case by (simp add: construct_def state0_def)
next
  case (committed this recipe this' calls)
  from commit_mount_flags[OF committed(2)] committed(3) show ?case
    by (auto split: if_splits)
qed

lemma dirtys_of_mounted:
  "dirtys_of this st (st \<lparr> mounted := b \<rparr>) = (\<lambda>k. k = K_mounted \<and> mounted st \<noteq> b)"
  apply (rule ext)
  subgoal for k
    by (cases k) (auto simp add: dirtys_of_def dirtyCheck_def DEEP_INSPECT_PROPERTY_KEYS_def)
  done

lemma dirtys_of_unmounted:
  "dirtys_of this st (st \<lparr> unmounted := b \<rparr>) = (\<lambda>k. k = K_unmounted \<and> unmounted st \<noteq> b)"
  apply (rule ext)
  subgoal for k
    by (cases k) (auto simp add: dirtys_of_def dirtyCheck_def DEEP_INSPECT_PROPERTY_KEYS_def)
  done

lemma commit_mounted_returns:
  "\<exists>this' calls. commit this (\<lambda>d. d \<lparr> mounted := b \<rparr>) = Inr (this', calls)"
proof (cases "mounted (state this) = b")
  case True
  then have "dirtys_of this (state this) ((state this) \<lparr> mounted := b \<rparr>) = (\<lambda>k. False)"
    by (simp add: dirtys_of_mounted)
  then show ?thesis by (simp add: commit_def Let_def)
next
  case False
  then have d: "dirtys_of this (state this) ((state this) \<lparr> mounted := b \<rparr>) = only K_mounted"
    by (auto simp add: dirtys_of_mounted only_def)
  have p: "\<exists>r. produce this ((state this) \<lparr> mounted := b \<rparr>) (only K_mounted) = Inr r"
    by (subst produce_clean) (simp_all add: only_def)
  then show ?thesis
    by (auto simp add: commit_def Let_def d)
qed

lemma commit_unmounted_returns:
  "\<exists>this' calls. commit this (\<lambda>d. d \<lparr> unmounted := b \<rparr>) = Inr (this', calls)"
proof (cases "unmounted (state this) = b")
  case True
  then have "dirtys_of this (state this) ((state this) \<lparr> unmounted := b \<rparr>) = (\<lambda>k. False)"
    by (simp add: dirtys_of_unmounted)
  then show ?thesis by (simp add: commit_def Let_def)
next
  case False
  then have d: "dirtys_of this (state this) ((state this) \<lparr> unmounted := b \<rparr>) = only K_unmounted"
    by (auto simp add: dirtys_of_unmounted only_def)
  have p: "\<exists>r. produce this ((state this) \<lparr> unmounted := b \<rparr>) (only K_unmounted) = Inr r"
    by (subst produce_clean) (simp_all add: only_def)
  then show ?thesis
    by (auto simp add: commit_def Let_def d)
qed

text \<open>
  Claim C6 as stated fails: the freshly constructed state has \<^verbatim>\<open>mounted\<close> and
  \<^verbatim>\<open>unmounted\<close> both false, so they are not complements there.
\<close>

theorem fresh_state_counterexample:
  "reachable field0
   \<and> mounted (state field0) = False \<and> unmounted (state field0) = False
   \<and> (mounted (state field0) = (\<not> unmounted (state field0))) = False"
  by (simp add: field0_def reachable.constructed) (simp add: construct_def state0_def)

text \<open>
  Claim C6, amended. In every state reachable by construction followed by commits,
  \<^verbatim>\<open>mounted\<close> and \<^verbatim>\<open>unmounted\<close> are never both true (they are both false after
  construction). A commit whose mutation changes \<^verbatim>\<open>mounted\<close> or \<^verbatim>\<open>unmounted\<close> leaves them
  complementary, and a commit that changes neither leaves both as they were. Committing
  \<^verbatim>\<open>{mounted: true}\<close> returns with \<^verbatim>\<open>mounted\<close> true and \<^verbatim>\<open>unmounted\<close> false; committing
  \<^verbatim>\<open>{unmounted: true}\<close> returns with \<^verbatim>\<open>unmounted\<close> true and \<^verbatim>\<open>mounted\<close> false.
\<close>

theorem mounted_unmounted_reachable:
  assumes "reachable this"
  shows "\<not> (mounted (state this) \<and> unmounted (state this))
       \<and> (\<forall>recipe this' calls. commit this recipe = Inr (this', calls) \<longrightarrow>
            mounted (state this') =
              (if mounted (recipe (state this)) \<noteq> mounted (state this)
               then mounted (recipe (state this))
               else if unmounted (recipe (state this)) \<noteq> unmounted (state this)
               then \<not> unmounted (recipe (state this)) else mounted (state this))
            \<and> unmounted (state this') =
              (if mounted (recipe (state this)) \<noteq> mounted (state this)
               then \<not> mounted (recipe (state this)) else unmounted (recipe (state this)))
            \<and> (mounted (recipe (state this)) \<noteq> mounted (state this)
                 \<or> unmounted (recipe (state this)) \<noteq> unmounted (state this)
               \<longrightarrow> mounted (state this') = (\<not> unmounted (state this'))))
       \<and> (\<exists>this' calls. commit this mutate_mount = Inr (this', calls)
            \<and> mounted (state this') \<and> \<not> unmounted (state this'))
       \<and> (\<exists>this' calls. commit this mutate_unmount = Inr (this', calls)
            \<and> unmounted (state this') \<and> \<not> mounted (state this'))"
proof -
  note nb = reachable_not_both[OF assms]
  have mm: "mutate_mount = (\<lambda>d. d \<lparr> mounted := True \<rparr>)"
    and mu: "mutate_unmount = (\<lambda>d. d \<lparr> unmounted := True \<rparr>)"
    by (simp_all add: mutate_mount_def mutate_unmount_def fun_eq_iff)
  from commit_mounted_returns[of this True] obtain t1 c1 where
    1: "commit this mutate_mount = Inr (t1, c1)" unfolding mm by blast
  from commit_unmounted_returns[of this True] obtain t2 c2 where
    2: "commit this mutate_unmount = Inr (t2, c2)" unfolding mu by blast
  have m1: "mounted (state t1) \<and> \<not> unmounted (state t1)"
    using commit_mount_flags[OF 1] nb by (auto simp add: mutate_mount_def split: if_splits)
  have m2: "unmounted (state t2) \<and> \<not> mounted (state t2)"
    using commit_mount_flags[OF 2] nb by (auto simp add: mutate_unmount_def split: if_splits)
  have g: "mounted (state t') =
              (if mounted (recipe (state this)) \<noteq> mounted (state this)
               then mounted (recipe (state this))
               else if unmounted (recipe (state this)) \<noteq> unmounted (state this)
               then \<not> unmounted (recipe (state this)) else mounted (state this))
            \<and> unmounted (state t') =
              (if mounted (recipe (state this)) \<noteq> mounted (state this)
               then \<not> mounted (recipe (state this)) else unmounted (recipe (state this)))
            \<and> (mounted (recipe (state this)) \<noteq> mounted (state this)
                 \<or> unmounted (recipe (state this)) \<noteq> unmounted (state this)
               \<longrightarrow> mounted (state t') = (\<not> unmounted (state t')))"
    if "commit this recipe = Inr (t', c')" for recipe t' c'
    using commit_mount_flags[OF that] by (auto split: if_splits)
  have e1: "\<exists>this' calls. commit this mutate_mount = Inr (this', calls)
            \<and> mounted (state this') \<and> \<not> unmounted (state this')"
    using 1 m1 by blast
  have e2: "\<exists>this' calls. commit this mutate_unmount = Inr (this', calls)
            \<and> unmounted (state this') \<and> \<not> mounted (state this')"
    using 2 m2 by blast
  show ?thesis
    apply (intro conjI allI impI)
         apply (rule nb)
        apply (simp only: g)
       apply (simp only: g)
      apply (frule g, blast)
     apply (rule e1)
    apply (rule e2)
    done
qed

text \<open>
  The sample field is reachable; mounting it returns the field with \<^verbatim>\<open>mounted\<close> true
  and \<^verbatim>\<open>unmounted\<close> false.
\<close>

theorem mounted_unmounted_reachable_witness:
  "reachable field0
   \<and> commit field0 mutate_mount
       = Inr (field0 \<lparr> state := (state field0) \<lparr> mounted := True \<rparr> \<rparr>,
              [Call_setValue ''a'' Undefined])
   \<and> mounted (mutate_mount (state field0)) \<noteq> mounted (state field0)
   \<and> mounted ((state field0) \<lparr> mounted := True \<rparr>)
   \<and> unmounted ((state field0) \<lparr> mounted := True \<rparr>) = False
   \<and> (mounted (state field0) \<and> unmounted (state field0)) = False"
proof -
  have r: "reachable field0" by (simp add: field0_def reachable.constructed)
  have c: "commit field0 mutate_mount
       = Inr (field0 \<lparr> state := (state field0) \<lparr> mounted := True \<rparr> \<rparr>,
              [Call_setValue ''a'' Undefined])"
    by (simp add: model_defs commit_defs sample_defs mutate_mount_def)
  have d: "mounted (mutate_mount (state field0)) \<noteq> mounted (state field0)"
    by (simp add: mutate_mount_def sample_defs)
  from mounted_unmounted_reachable[OF r] r c d show ?thesis
    by (simp add: sample_defs)
qed

section \<open>Empty mutations\<close>

lemma produce_no_dirty_calls:
  assumes "\<forall>k. \<not> dirtys k"
  shows "\<exists>st. produce this draft dirtys = Inr (st, [])"
proof -
  have p: "produce this draft dirtys =
     Inr (produceSideEffects this
            (produceEditable (produceErrorsAndWarnings draft dirtys) dirtys) dirtys)"
    by (rule produce_clean) (simp_all add: assms)
  have "snd (produceSideEffects this d dirtys) = []" for d
    using assms by (simp add: produceSideEffects_def)
  then show ?thesis
    unfolding p by (metis prod.collapse)
qed

text \<open>
  Claim C9. A commit whose mutation marks no property dirty returns the field as it
  was, every property of the state equal to its prior value, and records no call of
  \<^verbatim>\<open>setValue\<close>, \<^verbatim>\<open>setInitialValue\<close>, \<^verbatim>\<open>needRemoveValue\<close> or \<^verbatim>\<open>unControlledValueChanged\<close>;
  so repeating it is again a commit on the same field with the same outcome. The
  pipeline itself, were it run with an empty dirty map, would return and call no
  collaborator either.
\<close>

theorem empty_commit_noop:
  assumes "\<forall>k. \<not> dirtys_of this (state this) (recipe (state this)) k"
  shows "commit this recipe = Inr (this, [])
       \<and> (\<exists>st. produce this (recipe (state this))
                  (dirtys_of this (state this) (recipe (state this))) = Inr (st, []))"
proof -
  have "commit this recipe = Inr (this, [])"
    using assms by (simp add: commit_def Let_def no_dirty_iff)
  with produce_no_dirty_calls[OF assms] show ?thesis by simp
qed

text \<open>
  The mutation \<^verbatim>\<open>{visible: true}\<close> on the sample field, which is visible already: no
  property is dirty, and the commit returns the field with no call.
\<close>

theorem empty_commit_noop_witness:
  "(\<forall>k. \<not> dirtys_of field0 (state field0) (mutate_show (state field0)) k)
   \<and> commit field0 mutate_show = Inr (field0, [])"
proof -
  have s: "mutate_show (state field0) = state field0"
    by (simp add: mutate_show_def sample_defs)
  have h: "\<forall>k. \<not> dirtys_of field0 (state field0) (mutate_show (state field0)) k"
    unfolding s by (simp add: dirtys_of_def)
  from empty_commit_noop[where this = field0 and recipe = mutate_show, OF h] h
  show ?thesis by simp
qed

end
